theory Spec2Isabelle
  imports Complex_Main
begin

section \<open>JavaScript values\<close>

text \<open>
  The batch job (\<^verbatim>\<open>process-csv\<close>, a Cloud Run job) and the cloud function
  \<^verbatim>\<open>processCSV\<close> handle untyped JSON that comes back from the model. A number is a
  double: a finite one is represented by its exact rational value, and the three
  non-finite doubles are constructors of their own. \<^verbatim>\<open>undefined\<close> is \<open>None\<close> of
  \<open>json option\<close>.
\<close>

datatype jsnum = Num rat | PosInfinity | NegInfinity | NaN

datatype json =
    JNull
  | JBool bool
  | JNum jsnum
  | JStr string
  | JArr "json list"
  | JObj "(string \<times> json) list"

text \<open>
  Built-in operations of the JavaScript runtime that the code calls and whose definition
  is not part of the repository: \<^verbatim>\<open>JSON.parse\<close> (\<open>None\<close> when it throws
  \<^verbatim>\<open>SyntaxError\<close>), the conversion of a string to a number (\<^verbatim>\<open>Number("0.9")\<close>) and of a
  number to a string.
\<close>

record runtime =
  json_parse :: "string \<Rightarrow> json option"
  str_to_num :: "string \<Rightarrow> jsnum"
  num_to_str :: "jsnum \<Rightarrow> string"

text \<open>Truthiness, as tested by \<^verbatim>\<open>if (x)\<close>, \<^verbatim>\<open>x && y\<close> and \<^verbatim>\<open>x || y\<close>.\<close>

fun truthy :: "json option \<Rightarrow> bool" where
  "truthy None = False"
| "truthy (Some JNull) = False"
| "truthy (Some (JBool b)) = b"
| "truthy (Some (JNum n)) = (n \<noteq> Num 0 \<and> n \<noteq> NaN)"
| "truthy (Some (JStr s)) = (s \<noteq> [])"
| "truthy (Some (JArr xs)) = True"
| "truthy (Some (JObj kvs)) = True"

text \<open>\<^verbatim>\<open>x || d\<close> where \<open>d\<close> is a constant.\<close>

definition or_else :: "json option \<Rightarrow> json \<Rightarrow> json" where
  "or_else x d = (if truthy x then the x else d)"

fun join_comma :: "string list \<Rightarrow> string" where
  "join_comma [] = []"
| "join_comma [s] = s"
| "join_comma (s # t # ss) = s @ '','' @ join_comma (t # ss)"

text \<open>
  \<^verbatim>\<open>ToString\<close>, which a computed property name \<^verbatim>\<open>obj[v]\<close> applies to \<open>v\<close>; \<open>None\<close>
  when it throws \<^verbatim>\<open>TypeError\<close>. An array is the comma-joined strings of its elements,
  with \<^verbatim>\<open>null\<close> elements empty. An object is converted by its \<^verbatim>\<open>toString\<close> and
  \<^verbatim>\<open>valueOf\<close>: a parsed object inherits both, and the inherited \<^verbatim>\<open>toString\<close> answers
  \<^verbatim>\<open>[object Object]\<close>; an own \<^verbatim>\<open>toString\<close> key holds a JSON value, which cannot be
  called, and then neither method yields a primitive and the conversion throws.
\<close>

fun to_string :: "runtime \<Rightarrow> json \<Rightarrow> string option" where
  "to_string rt JNull = Some ''null''"
| "to_string rt (JBool b) = Some (if b then ''true'' else ''false'')"
| "to_string rt (JNum n) = Some (num_to_str rt n)"
| "to_string rt (JStr s) = Some s"
| "to_string rt (JArr xs) =
     map_option join_comma (those (map (\<lambda>x. if x = JNull then Some [] else to_string rt x) xs))"
| "to_string rt (JObj kvs) =
     (if map_of kvs ''toString'' = None then Some ''[object Object]'' else None)"

text \<open>
  \<^verbatim>\<open>Number(v)\<close>; \<open>None\<close> when it throws \<^verbatim>\<open>TypeError\<close>. Arrays and objects go through
  their string: the inherited \<^verbatim>\<open>valueOf\<close> returns the object itself, so the conversion
  falls through to \<^verbatim>\<open>toString\<close> as above.
\<close>

fun to_number :: "runtime \<Rightarrow> json \<Rightarrow> jsnum option" where
  "to_number rt JNull = Some (Num 0)"
| "to_number rt (JBool b) = Some (if b then Num 1 else Num 0)"
| "to_number rt (JNum n) = Some n"
| "to_number rt (JStr s) = Some (str_to_num rt s)"
| "to_number rt (JArr xs) = map_option (str_to_num rt) (to_string rt (JArr xs))"
| "to_number rt (JObj kvs) = map_option (str_to_num rt) (to_string rt (JObj kvs))"

text \<open>\<^verbatim>\<open>n || 0.0\<close> on a number: zero and \<^verbatim>\<open>NaN\<close> are falsy.\<close>

definition num_or_zero :: "jsnum \<Rightarrow> jsnum" where
  "num_or_zero n = (if n = NaN \<or> n = Num 0 then Num 0 else n)"

text \<open>
  Reading a property whose name no built-in prototype defines (\<^verbatim>\<open>transaction_N\<close>,
  \<^verbatim>\<open>cost_pool\<close>, \<^verbatim>\<open>cost_sub_pool\<close>, \<^verbatim>\<open>confidence\<close>, \<^verbatim>\<open>reasoning\<close>) from a value that
  is not \<^verbatim>\<open>null\<close>: an object answers with its own property, and a number, a boolean, a
  string or an array with \<^verbatim>\<open>undefined\<close>. On \<^verbatim>\<open>null\<close> the read throws; the callers below
  write that case out where it can happen.
\<close>

fun get_prop :: "json \<Rightarrow> string \<Rightarrow> json option" where
  "get_prop (JObj kvs) k = map_of kvs k"
| "get_prop v k = None"

section \<open>The taxonomy\<close>

record sub_pool =
  name :: string
  sub_definition :: string

record pool_data =
  pool_definition :: string
  sub_pools :: "sub_pool list"

text \<open>
  \<^verbatim>\<open>structuredDefs\<close> is the plain object that the store hands back: its own properties
  are the cost pools, and it inherits from \<^verbatim>\<open>Object.prototype\<close>.
\<close>

type_synonym taxonomy = "(string \<times> pool_data) list"

definition object_prototype_names :: "string list" where
  "object_prototype_names =
     [''constructor'', ''hasOwnProperty'', ''isPrototypeOf'', ''propertyIsEnumerable'',
      ''toLocaleString'', ''toString'', ''valueOf'', ''__proto__'',
      ''__defineGetter__'', ''__defineSetter__'', ''__lookupGetter__'', ''__lookupSetter__'']"

text \<open>
  The outcomes of \<^verbatim>\<open>structuredDefs[v]\<close>: a pool of the taxonomy, a function or object
  inherited from \<^verbatim>\<open>Object.prototype\<close> (truthy, and without a \<^verbatim>\<open>sub_pools\<close> property),
  \<^verbatim>\<open>undefined\<close>, or a \<^verbatim>\<open>TypeError\<close> thrown while \<open>v\<close> is made a property name.
\<close>

datatype defs_entry = OwnPool pool_data | Inherited | Undefined | KeyThrows

definition lookup_defs :: "runtime \<Rightarrow> taxonomy \<Rightarrow> json \<Rightarrow> defs_entry" where
  "lookup_defs rt defs v =
     (case to_string rt v of
        None \<Rightarrow> KeyThrows
      | Some k \<Rightarrow>
          (case map_of defs k of
             Some p \<Rightarrow> OwnPool p
           | None \<Rightarrow> if k \<in> set object_prototype_names then Inherited else Undefined))"

section \<open>Classification of one row\<close>

datatype error =
    MissingArguments
  | InvalidSourcePath
  | DefinitionsMissing
  | SourceReadError
  | TypeError
  | OracleCallError
  | StoreError

record classification =
  cost_pool :: json
  cost_sub_pool :: json
  confidence :: json
  reasoning :: json

definition fallback :: "string \<Rightarrow> classification" where
  "fallback why =
     \<lparr>cost_pool = JStr ''Unclassified'', cost_sub_pool = JStr ''Unclassified'',
      confidence = JNum (Num 0), reasoning = JStr why\<rparr>"

text \<open>
  The validation shared by both pipelines (\<^verbatim>\<open>processBatch\<close> lines 105-117 with
  \<open>result\<close>, \<^verbatim>\<open>processCSV\<close> lines 147-159 with \<open>suggestion\<close>), for a value that is not
  \<^verbatim>\<open>null\<close>. \<^verbatim>\<open>.sub_pools.some(...)\<close> on an inherited entry calls \<^verbatim>\<open>some\<close> of
  \<^verbatim>\<open>undefined\<close>, which throws \<^verbatim>\<open>TypeError\<close>, as does a cost pool that cannot be made a
  property name.
\<close>

definition validate :: "runtime \<Rightarrow> taxonomy \<Rightarrow> string \<Rightarrow> json \<Rightarrow> error + classification" where
  "validate rt defs why result =
     (if truthy (get_prop result ''cost_pool'') then
        (case lookup_defs rt defs (the (get_prop result ''cost_pool'')) of
           Undefined \<Rightarrow> Inr (fallback why)
         | Inherited \<Rightarrow> Inl TypeError
         | KeyThrows \<Rightarrow> Inl TypeError
         | OwnPool p \<Rightarrow>
             if list_ex (\<lambda>sp. Some (JStr (name sp)) = get_prop result ''cost_sub_pool'') (sub_pools p)
             then Inr \<lparr>cost_pool = the (get_prop result ''cost_pool''),
                       cost_sub_pool = the (get_prop result ''cost_sub_pool''),
                       confidence = or_else (get_prop result ''confidence'') (JNum (Num 0)),
                       reasoning = or_else (get_prop result ''reasoning'') (JStr ''No reasoning provided.'')\<rparr>
             else Inr (fallback why))
      else Inr (fallback why))"

section \<open>Rows, documents and the oracle\<close>

type_synonym csv_row = "(string \<times> string) list"

text \<open>\<^verbatim>\<open>{ index: rowIndex, data: row }\<close>, line 175 of the batch job.\<close>

record src_row =
  index :: nat
  data :: csv_row

type_synonym document = "(string \<times> json) list"

text \<open>The decimal digits of a row index, as a template literal prints an integer.\<close>

definition digit_char :: "nat \<Rightarrow> char" where
  "digit_char d = char_of (48 + d)"

function show_nat :: "nat \<Rightarrow> string" where
  "show_nat n = (if n < 10 then [digit_char n] else show_nat (n div 10) @ [digit_char (n mod 10)])"
  by pat_completeness auto
termination
  by (relation "measure id") auto

declare show_nat.simps [simp del]

text \<open>
  The object handed to \<^verbatim>\<open>set\<close> (lines 120-125 of the batch job, 166-171 of the cloud
  function): the spread of the classification sits between \<^verbatim>\<open>original_data\<close> and
  \<^verbatim>\<open>row_index\<close>, and the later \<^verbatim>\<open>confidence\<close> key replaces the value of the spread one.
  \<open>document_of\<close> is the object for a given value \<open>n\<close> of that last expression.
\<close>

definition document_of :: "src_row \<Rightarrow> classification \<Rightarrow> jsnum \<Rightarrow> document" where
  "document_of row c n =
     [(''original_data'', JObj (map (\<lambda>(h, v). (h, JStr v)) (data row))),
      (''cost_pool'', cost_pool c),
      (''cost_sub_pool'', cost_sub_pool c),
      (''confidence'', JNum n),
      (''reasoning'', reasoning c),
      (''row_index'', JNum (Num (of_nat (index row))))]"

text \<open>
  The expression is \<^verbatim>\<open>Number(classification.confidence) || 0.0\<close>; when \<^verbatim>\<open>Number\<close>
  throws, the object is never built and nothing is handed to \<^verbatim>\<open>set\<close>.
\<close>

definition row_document :: "runtime \<Rightarrow> src_row \<Rightarrow> classification \<Rightarrow> error + document" where
  "row_document rt row c =
     (case to_number rt (confidence c) of
        None \<Rightarrow> Inl TypeError
      | Some n \<Rightarrow> Inr (document_of row c (num_or_zero n)))"

text \<open>
  What one call of \<^verbatim>\<open>generateContent\<close> gives: the call rejects, or it resolves with a
  result whose \<^verbatim>\<open>text\<close> is \<^verbatim>\<open>undefined\<close>, or it resolves with a text.
\<close>

datatype oracle_reply = CallRejected | NoText | ReplyText string

text \<open>
  A character is a code unit below 256. The white space and line terminators that
  \<^verbatim>\<open>String.prototype.trim\<close> strips are, in that range, tab, line feed, vertical tab,
  form feed, carriage return, space and the no-break space U+00A0.
\<close>

definition is_space :: "char \<Rightarrow> bool" where
  "is_space c = (c \<in> set [CHR 0x09, CHR 0x0A, CHR 0x0B, CHR 0x0C, CHR 0x0D, CHR 0x20, CHR 0xA0])"

definition trim :: "string \<Rightarrow> string" where
  "trim s = rev (dropWhile is_space (rev (dropWhile is_space s)))"

definition fence :: string where
  "fence = replicate 3 (CHR 0x60)"

text \<open>
  \<^verbatim>\<open>.replace(/```json|```/g, '')\<close>: scanning from the left, a fence followed by
  \<^verbatim>\<open>json\<close> is removed whole, a bare fence is removed, any other character is kept.
\<close>

fun strip_fences :: "string \<Rightarrow> string" where
  "strip_fences [] = []"
| "strip_fences (c # cs) =
     (if take 7 (c # cs) = fence @ ''json'' then strip_fences (drop 6 cs)
      else if take 3 (c # cs) = fence then strip_fences (drop 2 cs)
      else c # strip_fences cs)"

text \<open>Lines 85-93 of the batch job: any failure inside the \<^verbatim>\<open>try\<close> leaves \<^verbatim>\<open>{}\<close>.\<close>

definition ai_response :: "runtime \<Rightarrow> oracle_reply \<Rightarrow> json" where
  "ai_response rt r =
     (case r of
        CallRejected \<Rightarrow> JObj []
      | NoText \<Rightarrow> JObj []
      | ReplyText t \<Rightarrow>
          (case json_parse rt (strip_fences (trim t)) of
             None \<Rightarrow> JObj []
           | Some v \<Rightarrow> v))"

section \<open>The batch job: \<^verbatim>\<open>processBatch\<close>\<close>

definition batch_reason :: string where
  "batch_reason = ''AI response was missing, invalid, or could not be parsed.''"

text \<open>
  Lines 96-117 for one row. \<^verbatim>\<open>aiResponse[...]\<close> on \<^verbatim>\<open>null\<close> throws \<^verbatim>\<open>TypeError\<close>;
  neither it nor the validation is inside a \<^verbatim>\<open>try\<close>.
\<close>

definition classify :: "runtime \<Rightarrow> taxonomy \<Rightarrow> json \<Rightarrow> src_row \<Rightarrow> error + classification" where
  "classify rt defs aiResponse row =
     (if aiResponse = JNull then Inl TypeError
      else
        let result = get_prop aiResponse (''transaction_'' @ show_nat (index row)) in
        if truthy result then validate rt defs batch_reason (the result)
        else Inr (fallback batch_reason))"

text \<open>
  What the job does to the outside, in the order it does it. The status strings are the
  ones the code writes: \<^verbatim>\<open>reading\<close>, \<^verbatim>\<open>processing\<close>, \<^verbatim>\<open>processing_batch_N\<close>,
  \<^verbatim>\<open>completed\<close>, \<^verbatim>\<open>failed\<close>.
\<close>

datatype event =
    JobSet string string
      \<comment> \<open>\<^verbatim>\<open>jobDocRef.set({id, originalFilename, createdAt, status: 'reading'})\<close>\<close>
  | StatusUpdate string
      \<comment> \<open>\<^verbatim>\<open>jobDocRef.update({status})\<close>\<close>
  | Counted nat
      \<comment> \<open>\<^verbatim>\<open>jobDocRef.update({totalRows, status: 'processing'})\<close>, cloud function only\<close>
  | Complete nat
      \<comment> \<open>\<^verbatim>\<open>jobDocRef.update({status: 'completed', totalRows})\<close>\<close>
  | Fail error
      \<comment> \<open>\<^verbatim>\<open>update({status: 'failed', error: err.message})\<close>\<close>
  | BatchCall "src_row list"
      \<comment> \<open>\<^verbatim>\<open>processBatch\<close> entered with this batch\<close>
  | RowSet nat document
      \<comment> \<open>\<^verbatim>\<open>set\<close> of the document \<^verbatim>\<open>rows/String(row.index)\<close>\<close>
  | WriterClosed
      \<comment> \<open>\<^verbatim>\<open>bulkWriter.close()\<close> resolved\<close>

text \<open>
  The loop of lines 95-126 over the batch. A throw, of the classification or of the
  object literal of lines 120-125, leaves the loop: the rows before it have been handed
  to the writer, the row that threw and the ones after it have not.
\<close>

fun write_rows :: "runtime \<Rightarrow> taxonomy \<Rightarrow> json \<Rightarrow> src_row list \<Rightarrow> event list \<times> error option" where
  "write_rows rt defs aiResponse [] = ([], None)"
| "write_rows rt defs aiResponse (row # rows) =
     (case classify rt defs aiResponse row of
        Inl e \<Rightarrow> ([], Some e)
      | Inr c \<Rightarrow>
          (case row_document rt row c of
             Inl e \<Rightarrow> ([], Some e)
           | Inr doc \<Rightarrow>
               (case write_rows rt defs aiResponse rows of
                  (evs, r) \<Rightarrow> (RowSet (index row) doc # evs, r))))"

text \<open>
  Lines 81-127. The log line of line 82 reads \<^verbatim>\<open>batch[0].index\<close>, which throws on an
  empty batch; \<open>genAI\<close> stands for the call of line 87 made for this batch.
\<close>

definition processBatch ::
  "runtime \<Rightarrow> taxonomy \<Rightarrow> (src_row list \<Rightarrow> oracle_reply) \<Rightarrow> src_row list \<Rightarrow> event list \<times> error option" where
  "processBatch rt defs genAI batch =
     (if batch = [] then ([BatchCall batch], Some TypeError)
      else
        (case write_rows rt defs (ai_response rt (genAI batch)) batch of
           (evs, r) \<Rightarrow> (BatchCall batch # evs, r)))"

section \<open>The batch job: \<^verbatim>\<open>main\<close> and its \<^verbatim>\<open>catch\<close>\<close>

definition BATCH_SIZE :: nat where
  "BATCH_SIZE = 50"

text \<open>
  One invocation: the two command-line arguments, the definitions document (\<open>None\<close>
  when it does not exist), the rows the CSV stream yields and whether it then raises
  instead of ending, the reply of the oracle to the call made for a batch, and whether
  closing the writer rejects. The writes to the job document are taken to succeed, and
  a document handed to the writer counts as written once \<^verbatim>\<open>close\<close> has resolved.
\<close>

record invocation =
  gcsBucket :: "string option"
  gcsFile :: "string option"
  definitions :: "taxonomy option"
  csv_rows :: "csv_row list"
  read_fails :: bool
  generateContent :: "src_row list \<Rightarrow> oracle_reply"
  close_fails :: bool

text \<open>\<^verbatim>\<open>filePath.split('/')\<close>: never empty, \<^verbatim>\<open>''.split('/')\<close> is \<^verbatim>\<open>['']\<close>.\<close>

fun split_slash :: "string \<Rightarrow> string list" where
  "split_slash [] = [[]]"
| "split_slash (c # cs) =
     (if c = CHR ''/'' then [] # split_slash cs
      else (case split_slash cs of
              [] \<Rightarrow> [[c]]
            | p # ps \<Rightarrow> (c # p) # ps))"

text \<open>\<^verbatim>\<open>!arg\<close>: the argument is missing or the empty string.\<close>

definition missing :: "string option \<Rightarrow> bool" where
  "missing a = (case a of None \<Rightarrow> True | Some s \<Rightarrow> s = [])"

text \<open>
  The \<^verbatim>\<open>for await\<close> loop of lines 174-183, with the batch size as a parameter. It
  returns the events and either the error that left the loop or the pending batch and
  the row count.
\<close>

fun for_await ::
  "runtime \<Rightarrow> nat \<Rightarrow> taxonomy \<Rightarrow> (src_row list \<Rightarrow> oracle_reply) \<Rightarrow> bool \<Rightarrow>
   csv_row list \<Rightarrow> src_row list \<Rightarrow> nat \<Rightarrow> event list \<times> (error + src_row list \<times> nat)" where
  "for_await rt B defs orc fails [] batch rowIndex =
     (if fails then ([], Inl SourceReadError) else ([], Inr (batch, rowIndex)))"
| "for_await rt B defs orc fails (row # rest) batch rowIndex =
     (let batch1 = batch @ [\<lparr>index = rowIndex, data = row\<rparr>];
          rowIndex1 = rowIndex + 1
      in if length batch1 \<ge> B then
           (case processBatch rt defs orc batch1 of
              (evs, Some e) \<Rightarrow>
                (StatusUpdate (''processing_batch_'' @ show_nat (rowIndex1 div B)) # evs, Inl e)
            | (evs, None) \<Rightarrow>
                (case for_await rt B defs orc fails rest [] rowIndex1 of
                   (evs', r) \<Rightarrow>
                     (StatusUpdate (''processing_batch_'' @ show_nat (rowIndex1 div B)) # evs @ evs', r)))
         else for_await rt B defs orc fails rest batch1 rowIndex1)"

text \<open>Lines 130-198. The path is validated before anything is written or read.\<close>

definition main :: "runtime \<Rightarrow> nat \<Rightarrow> invocation \<Rightarrow> event list \<times> error option" where
  "main rt B job =
     (if missing (gcsBucket job) \<or> missing (gcsFile job) then ([], Some MissingArguments)
      else
        let pathParts = split_slash (the (gcsFile job)) in
        if length pathParts < 4 \<or> pathParts ! 0 \<noteq> ''uploads'' then ([], Some InvalidSourcePath)
        else
          let start = [JobSet (pathParts ! 2) (pathParts ! 3)] in
          case definitions job of
            None \<Rightarrow> (start, Some DefinitionsMissing)
          | Some defs \<Rightarrow>
              (case for_await rt B defs (generateContent job) (read_fails job) (csv_rows job) [] 0 of
                 (evs, Inl e) \<Rightarrow> (start @ evs, Some e)
               | (evs, Inr (batch, rowIndex)) \<Rightarrow>
                   (case (if length batch > 0 then processBatch rt defs (generateContent job) batch
                          else ([], None)) of
                      (evs2, Some e) \<Rightarrow> (start @ evs @ evs2, Some e)
                    | (evs2, None) \<Rightarrow>
                        if close_fails job then (start @ evs @ evs2, Some StoreError)
                        else (start @ evs @ evs2 @ [WriterClosed, Complete rowIndex], None))))"

text \<open>
  Lines 200-217: the handler of a rejected \<^verbatim>\<open>main\<close> marks the job failed when the file
  argument is present and has at least four segments.
\<close>

definition run_job :: "runtime \<Rightarrow> nat \<Rightarrow> invocation \<Rightarrow> event list \<times> error option" where
  "run_job rt B job =
     (case main rt B job of
        (evs, None) \<Rightarrow> (evs, None)
      | (evs, Some e) \<Rightarrow>
          if \<not> missing (gcsFile job) \<and> length (split_slash (the (gcsFile job))) \<ge> 4
          then (evs @ [Fail e], Some e)
          else (evs, Some e))"

subsection \<open>Reading a trace\<close>

fun status_of :: "event \<Rightarrow> string option" where
  "status_of (JobSet i f) = Some ''reading''"
| "status_of (StatusUpdate s) = Some s"
| "status_of (Counted n) = Some ''processing''"
| "status_of (Complete n) = Some ''completed''"
| "status_of (Fail e) = Some ''failed''"
| "status_of ev = None"

definition statuses :: "event list \<Rightarrow> string list" where
  "statuses evs = List.map_filter status_of evs"

fun batch_of :: "event \<Rightarrow> src_row list option" where
  "batch_of (BatchCall b) = Some b"
| "batch_of ev = None"

definition batch_calls :: "event list \<Rightarrow> src_row list list" where
  "batch_calls evs = List.map_filter batch_of evs"

fun row_of :: "event \<Rightarrow> (nat \<times> document) option" where
  "row_of (RowSet i d) = Some (i, d)"
| "row_of ev = None"

definition row_writes :: "event list \<Rightarrow> (nat \<times> document) list" where
  "row_writes evs = List.map_filter row_of evs"

fun total_of :: "event \<Rightarrow> nat option" where
  "total_of (Counted n) = Some n"
| "total_of (Complete n) = Some n"
| "total_of ev = None"

text \<open>The \<^verbatim>\<open>totalRows\<close> field of the job document after the trace: the last one written.\<close>

definition totalRows :: "event list \<Rightarrow> nat option" where
  "totalRows evs = (case rev (List.map_filter total_of evs) of [] \<Rightarrow> None | n # ns \<Rightarrow> Some n)"

section \<open>The cloud function \<^verbatim>\<open>processCSV\<close>\<close>

definition csv_reason :: string where
  "csv_reason = ''AI response could not be parsed or validated.''"

text \<open>
  One triggering event: the \<^verbatim>\<open>name\<close> and \<^verbatim>\<open>bucket\<close> of its data (\<open>None\<close> when the
  field or the data is missing), the definitions document, the records of the file and
  whether the stream reports an error, the reply of the oracle to the call made for the
  row of an index, and whether the write of a row document rejects. The writes to the
  job document are taken to succeed.
\<close>

record trigger =
  file_name :: "string option"
  file_bucket :: "string option"
  loaded_definitions :: "taxonomy option"
  records :: "csv_row list"
  stream_fails :: bool
  generate :: "nat \<Rightarrow> oracle_reply"
  row_set_fails :: "nat \<Rightarrow> bool"

text \<open>
  Lines 136-162 for a call that resolved: everything from \<^verbatim>\<open>result.text.trim()\<close> to
  the validation is inside the \<^verbatim>\<open>try\<close>, so a missing text, a text that does not parse,
  a \<^verbatim>\<open>null\<close> suggestion and a throwing validation all leave the initial classification.
\<close>

definition suggest :: "runtime \<Rightarrow> taxonomy \<Rightarrow> string option \<Rightarrow> classification" where
  "suggest rt defs text =
     (case text of
        None \<Rightarrow> fallback csv_reason
      | Some t \<Rightarrow>
          (case json_parse rt (strip_fences (trim t)) of
             None \<Rightarrow> fallback csv_reason
           | Some suggestion \<Rightarrow>
               if suggestion = JNull then fallback csv_reason
               else (case validate rt defs csv_reason suggestion of
                       Inl e \<Rightarrow> fallback csv_reason
                     | Inr c \<Rightarrow> c)))"

text \<open>
  Lines 164-171 for one record that has its classification: the object literal may throw
  in \<^verbatim>\<open>Number\<close>, and the write may reject; both are outside the \<^verbatim>\<open>try\<close> of lines 143-162.
\<close>

definition set_row ::
  "runtime \<Rightarrow> (nat \<Rightarrow> bool) \<Rightarrow> nat \<Rightarrow> csv_row \<Rightarrow> classification \<Rightarrow> error + event" where
  "set_row rt wfails i row c =
     (case row_document rt \<lparr>index = i, data = row\<rparr> c of
        Inl e \<Rightarrow> Inl e
      | Inr doc \<Rightarrow> if wfails i then Inl StoreError else Inr (RowSet i doc))"

text \<open>
  Lines 132-174: one promise per record, awaited together. A rejected call of the oracle
  (line 134 is outside the \<^verbatim>\<open>try\<close>), a throwing object literal or a rejected write
  rejects the promise of its row; the other rows still write. The events list the writes
  by row index, and the error is the one of the first row that failed.
\<close>

fun classify_all ::
  "runtime \<Rightarrow> taxonomy \<Rightarrow> (nat \<Rightarrow> oracle_reply) \<Rightarrow> (nat \<Rightarrow> bool) \<Rightarrow> csv_row list \<Rightarrow> nat \<Rightarrow>
   event list \<times> error option" where
  "classify_all rt defs gen wfails [] i = ([], None)"
| "classify_all rt defs gen wfails (row # rest) i =
     (case classify_all rt defs gen wfails rest (i + 1) of
        (evs, r) \<Rightarrow>
          (case gen i of
             CallRejected \<Rightarrow> (evs, Some OracleCallError)
           | NoText \<Rightarrow>
               (case set_row rt wfails i row (suggest rt defs None) of
                  Inl e \<Rightarrow> (evs, Some e)
                | Inr ev \<Rightarrow> (ev # evs, r))
           | ReplyText t \<Rightarrow>
               (case set_row rt wfails i row (suggest rt defs (Some t)) of
                  Inl e \<Rightarrow> (evs, Some e)
                | Inr ev \<Rightarrow> (ev # evs, r))))"

text \<open>
  Lines 80-182. The second component is the error that the handler of lines 179-181
  logged, if any; the function itself always returns normally.
\<close>

definition processCSV :: "runtime \<Rightarrow> trigger \<Rightarrow> event list \<times> error option" where
  "processCSV rt ev =
     (case loaded_definitions ev of
        None \<Rightarrow> ([], Some DefinitionsMissing)
      | Some defs \<Rightarrow>
          if defs = [] then ([], None)
          else if missing (file_name ev) \<or> missing (file_bucket ev) then ([], None)
          else
            let pathParts = split_slash (the (file_name ev)) in
            if length pathParts < 4 \<or> pathParts ! 0 \<noteq> ''uploads'' then ([], None)
            else
              let start = [JobSet (pathParts ! 2) (pathParts ! 3)] in
              if stream_fails ev then (start, Some SourceReadError)
              else
                (case classify_all rt defs (generate ev) (row_set_fails ev) (records ev) 0 of
                   (evs, Some e) \<Rightarrow> (start @ Counted (length (records ev)) # evs, Some e)
                 | (evs, None) \<Rightarrow>
                     (start @ Counted (length (records ev)) # evs @ [StatusUpdate ''completed''], None)))"

section \<open>The properties, as the specification words them\<close>

text \<open>
  The SourceRows of a stream: every row with its position in the stream, counted from
  \<open>start\<close>.
\<close>

definition source_rows :: "nat \<Rightarrow> csv_row list \<Rightarrow> src_row list" where
  "source_rows start rows = map (\<lambda>(i, r). \<lparr>index = i, data = r\<rparr>) (enumerate start rows)"




text \<open>The entry of the reply for the row of index \<open>i\<close>, \<open>None\<close> when there is none.\<close>

definition entry :: "json \<Rightarrow> nat \<Rightarrow> json option" where
  "entry aiResponse i = get_prop aiResponse (''transaction_'' @ show_nat i)"


text \<open>
  The row of index \<open>i\<close> is accepted: it has an entry, the entry has a cost pool, the pool
  is found among the pools of the taxonomy, and the \<^verbatim>\<open>cost_sub_pool\<close> of the entry is
  the name of one of the sub-pools of the pool found. Every other row falls back.
\<close>

definition accepted_row :: "runtime \<Rightarrow> taxonomy \<Rightarrow> json \<Rightarrow> nat \<Rightarrow> bool" where
  "accepted_row rt defs aiResponse i =
     (case entry aiResponse i of
        None \<Rightarrow> False
      | Some result \<Rightarrow>
          truthy (Some result) \<and> truthy (get_prop result ''cost_pool'')
          \<and> (case to_string rt (the (get_prop result ''cost_pool'')) of
                None \<Rightarrow> False
              | Some k \<Rightarrow>
                  (case map_of defs k of
                     None \<Rightarrow> False
                   | Some pool \<Rightarrow>
                       list_ex (\<lambda>sp. get_prop result ''cost_sub_pool'' = Some (JStr (name sp)))
                         (sub_pools pool))))"

text \<open>The confidence the oracle supplied for the row of index \<open>i\<close>, if any.\<close>

definition oracle_confidence :: "json \<Rightarrow> nat \<Rightarrow> json option" where
  "oracle_confidence aiResponse i =
     (case entry aiResponse i of
        None \<Rightarrow> None
      | Some result \<Rightarrow> get_prop result ''confidence'')"

text \<open>The persisted confidence is a number of the interval from 0 to 1.\<close>

definition confidence_in_range :: "document \<Rightarrow> bool" where
  "confidence_in_range doc =
     (case map_of doc ''confidence'' of
        Some (JNum (Num q)) \<Rightarrow> 0 \<le> q \<and> q \<le> 1
      | _ \<Rightarrow> False)"

text \<open>The seven fields of a row result, \<^verbatim>\<open>manually_edited\<close> being \<^verbatim>\<open>false\<close>.\<close>

definition row_result_shape :: "document \<Rightarrow> bool" where
  "row_result_shape doc =
     (list_all (\<lambda>f. map_of doc f \<noteq> None)
        [''original_data'', ''cost_pool'', ''cost_sub_pool'', ''confidence'', ''reasoning'',
         ''row_index'', ''manually_edited'']
      \<and> map_of doc ''manually_edited'' = Some (JBool False))"

text \<open>The status written before the batch of a number is processed.\<close>

definition batch_status :: "nat \<Rightarrow> string" where
  "batch_status k = ''processing_batch_'' @ show_nat k"

text \<open>The writes of a batch whose rows all fall back.\<close>

definition fallback_writes :: "src_row list \<Rightarrow> (nat \<times> document) list" where
  "fallback_writes batch =
     map (\<lambda>row. (index row, document_of row (fallback batch_reason) (Num 0))) batch"

section \<open>Sample inputs\<close>

text \<open>
  A runtime whose \<^verbatim>\<open>JSON.parse\<close> knows the listed texts and throws on every other one.
  Its two conversions between strings and numbers are never reached by the samples.
\<close>

definition runtime_with :: "(string \<times> json) list \<Rightarrow> runtime" where
  "runtime_with table = \<lparr>json_parse = map_of table, str_to_num = (\<lambda>s. NaN), num_to_str = (\<lambda>n. ''NaN'')\<rparr>"

definition sample_taxonomy :: taxonomy where
  "sample_taxonomy =
     [(''IT'', \<lparr>pool_definition = ''Technology'',
               sub_pools = [\<lparr>name = ''Hardware'', sub_definition = ''Devices''\<rparr>,
                            \<lparr>name = ''Software'', sub_definition = ''Licences''\<rparr>]\<rparr>)]"


definition sample_job :: "taxonomy \<Rightarrow> nat \<Rightarrow> (src_row list \<Rightarrow> oracle_reply) \<Rightarrow> invocation" where
  "sample_job defs k orc =
     \<lparr>gcsBucket = Some ''clarity-uploads'', gcsFile = Some ''uploads/acme/job42/data.csv'',
      definitions = Some defs, csv_rows = replicate k [(''vendor'', ''Dell'')],
      read_fails = False, generateContent = orc, close_fails = False\<rparr>"

definition row0 :: src_row where
  "row0 = \<lparr>index = 0, data = [(''vendor'', ''Dell'')]\<rparr>"

text \<open>Replies of the oracle, each with the value \<^verbatim>\<open>JSON.parse\<close> makes of it.\<close>

definition reply_empty :: "string \<times> json" where
  "reply_empty = (''{}'', JObj [])"

definition reply_null :: "string \<times> json" where
  "reply_null = (''null'', JNull)"

definition reply_accepted :: "string \<times> json" where
  \<open>reply_accepted =
     (''{"transaction_0": {"cost_pool": "IT", "cost_sub_pool": "Hardware", "confidence": 0.5, "reasoning": "laptop"}}'',
      JObj [(''transaction_0'',
             JObj [(''cost_pool'', JStr ''IT''), (''cost_sub_pool'', JStr ''Hardware''),
                   (''confidence'', JNum (Num (1 / 2))), (''reasoning'', JStr ''laptop'')])])\<close>

definition reply_overconfident :: "string \<times> json" where
  \<open>reply_overconfident =
     (''{"transaction_0": {"cost_pool": "IT", "cost_sub_pool": "Hardware", "confidence": 1.5}}'',
      JObj [(''transaction_0'',
             JObj [(''cost_pool'', JStr ''IT''), (''cost_sub_pool'', JStr ''Hardware''),
                   (''confidence'', JNum (Num (3 / 2)))])])\<close>

definition reply_constructor :: "string \<times> json" where
  \<open>reply_constructor =
     (''{"transaction_0": {"cost_pool": "constructor", "cost_sub_pool": "Hardware"}}'',
      JObj [(''transaction_0'',
             JObj [(''cost_pool'', JStr ''constructor''), (''cost_sub_pool'', JStr ''Hardware'')])])\<close>






text \<open>A reply with a negative confidence for an accepted row, and the document of the row.\<close>

definition reply_negative :: "string \<times> json" where
  \<open>reply_negative =
     (''{"transaction_0": {"cost_pool": "IT", "cost_sub_pool": "Hardware", "confidence": -0.25}}'',
      JObj [(''transaction_0'',
             JObj [(''cost_pool'', JStr ''IT''), (''cost_sub_pool'', JStr ''Hardware''),
                   (''confidence'', JNum (Num (- 1 / 4)))])])\<close>

definition doc_negative :: document where
  "doc_negative =
     [(''original_data'', JObj [(''vendor'', JStr ''Dell'')]),
      (''cost_pool'', JStr ''IT''), (''cost_sub_pool'', JStr ''Hardware''),
      (''confidence'', JNum (Num (- 1 / 4))), (''reasoning'', JStr ''No reasoning provided.''),
      (''row_index'', JNum (Num 0))]"

text \<open>
  A reply to the cloud function, which asks about one row at a time: the suggestion
  itself, with a pool named after an inherited property.
\<close>

definition suggestion_constructor :: "string \<times> json" where
  \<open>suggestion_constructor =
     (''{"cost_pool": "constructor", "cost_sub_pool": "Hardware"}'',
      JObj [(''cost_pool'', JStr ''constructor''), (''cost_sub_pool'', JStr ''Hardware'')])\<close>

text \<open>The document of row 0 when \<open>reply_accepted\<close> is taken.\<close>

definition doc_accepted :: document where
  "doc_accepted =
     [(''original_data'', JObj [(''vendor'', JStr ''Dell'')]),
      (''cost_pool'', JStr ''IT''), (''cost_sub_pool'', JStr ''Hardware''),
      (''confidence'', JNum (Num (1 / 2))), (''reasoning'', JStr ''laptop''),
      (''row_index'', JNum (Num 0))]"

text \<open>An event of the cloud function whose only record meets a rejected oracle call.\<close>

definition sample_trigger :: trigger where
  "sample_trigger =
     \<lparr>file_name = Some ''uploads/acme/job42/data.csv'', file_bucket = Some ''clarity-uploads'',
      loaded_definitions = Some sample_taxonomy, records = [[(''vendor'', ''Dell'')]],
      stream_fails = False, generate = (\<lambda>i. CallRejected), row_set_fails = (\<lambda>i. False)\<rparr>"

section \<open>Reading a trace: rules\<close>

lemma statuses_simps [simp]:
  "statuses [] = []"
  "statuses (evs @ evs') = statuses evs @ statuses evs'"
  "statuses (ev # evs) = (case status_of ev of None \<Rightarrow> statuses evs | Some s \<Rightarrow> s # statuses evs)"
  by (simp_all add: statuses_def List.map_filter_def split: option.splits)

lemma batch_calls_simps [simp]:
  "batch_calls [] = []"
  "batch_calls (evs @ evs') = batch_calls evs @ batch_calls evs'"
  "batch_calls (ev # evs) = (case batch_of ev of None \<Rightarrow> batch_calls evs | Some b \<Rightarrow> b # batch_calls evs)"
  by (simp_all add: batch_calls_def List.map_filter_def split: option.splits)

lemma row_writes_simps [simp]:
  "row_writes [] = []"
  "row_writes (evs @ evs') = row_writes evs @ row_writes evs'"
  "row_writes (ev # evs) = (case row_of ev of None \<Rightarrow> row_writes evs | Some w \<Rightarrow> w # row_writes evs)"
  by (simp_all add: row_writes_def List.map_filter_def split: option.splits)

lemma totalRows_end [simp]: "totalRows (evs @ [Complete n]) = Some n"
  by (simp add: totalRows_def List.map_filter_def)

lemma source_rows_simps [simp]:
  "source_rows n [] = []"
  "source_rows n (r # rs) = \<lparr>index = n, data = r\<rparr> # source_rows (Suc n) rs"
  by (simp_all add: source_rows_def)

lemma index_source_rows: "map index (source_rows n rows) = [n..<n + length rows]"
  by (induction rows arbitrary: n) (simp_all add: upt_rec)

section \<open>What \<^verbatim>\<open>processBatch\<close> hands to the writer\<close>

text \<open>Every document handed to the writer is the document of a row that classified.\<close>

lemma write_rows_stored:
  "(i, doc) \<in> set (row_writes (fst (write_rows rt defs a batch))) \<Longrightarrow>
   \<exists>row \<in> set batch. \<exists>c. classify rt defs a row = Inr c \<and> i = index row
      \<and> row_document rt row c = Inr doc"
proof (induction batch)
  case Nil
  then show ?case by simp
next
  case (Cons row rows)
  show ?case
  proof (cases "classify rt defs a row")
    case (Inl e)
    with Cons.prems show ?thesis by simp
  next
    case (Inr c)
    show ?thesis
    proof (cases "row_document rt row c")
      case (Inl e)
      with Inr Cons.prems show ?thesis by simp
    next
      case d: (Inr d)
      with Inr Cons.prems have "(i, doc) = (index row, d) \<or>
          (i, doc) \<in> set (row_writes (fst (write_rows rt defs a rows)))"
        by (auto split: prod.splits)
      then show ?thesis
      proof
        assume "(i, doc) = (index row, d)"
        with Inr d show ?thesis by auto
      next
        assume "(i, doc) \<in> set (row_writes (fst (write_rows rt defs a rows)))"
        from Cons.IH [OF this] show ?thesis by auto
      qed
    qed
  qed
qed

lemma processBatch_stored:
  "(i, doc) \<in> set (row_writes (fst (processBatch rt defs orc batch))) \<Longrightarrow>
   \<exists>row \<in> set batch. \<exists>c. classify rt defs (ai_response rt (orc batch)) row = Inr c
      \<and> i = index row \<and> row_document rt row c = Inr doc"
  using write_rows_stored [of i doc rt defs "ai_response rt (orc batch)" batch]
  by (auto simp add: processBatch_def split: prod.splits if_splits)

text \<open>A document that was built is the object literal for some value of the confidence.\<close>

lemma row_document_built:
  "row_document rt row c = Inr doc \<Longrightarrow>
   \<exists>m. to_number rt (confidence c) = Some m \<and> doc = document_of row c (num_or_zero m)"
  by (auto simp add: row_document_def split: option.splits)

lemma row_document_fallback:
  "row_document rt row (fallback why) = Inr (document_of row (fallback why) (Num 0))"
  by (simp add: row_document_def fallback_def num_or_zero_def)

lemma write_rows_only_rows:
  "statuses (fst (write_rows rt defs a batch)) = [] \<and> batch_calls (fst (write_rows rt defs a batch)) = []"
  by (induction batch) (auto split: sum.splits prod.splits)

lemma write_rows_done:
  "write_rows rt defs a batch = (evs, None) \<Longrightarrow> map fst (row_writes evs) = map index batch"
  by (induction batch arbitrary: evs) (auto split: sum.splits prod.splits)

lemma processBatch_trace:
  "statuses (fst (processBatch rt defs orc batch)) = []"
  "batch_calls (fst (processBatch rt defs orc batch)) = [batch]"
  using write_rows_only_rows [of rt defs "ai_response rt (orc batch)" batch]
  by (auto simp add: processBatch_def split: prod.splits if_splits)

lemma processBatch_done:
  "processBatch rt defs orc batch = (evs, None) \<Longrightarrow> map fst (row_writes evs) = map index batch"
  using write_rows_done [of rt defs "ai_response rt (orc batch)" batch]
  by (auto simp add: processBatch_def split: prod.splits if_splits)

section \<open>Validation\<close>





text \<open>
  The two rejections of the validator that fall back: a pool name that is neither a key
  of the taxonomy nor a name of \<^verbatim>\<open>Object.prototype\<close>, and a sub-pool that the pool does
  not have.
\<close>

lemma unknown_pool_falls_back:
  assumes "get_prop result ''cost_pool'' = Some (JStr p)" and "map_of defs p = None"
    and "p \<notin> set object_prototype_names"
  shows "validate rt defs why result = Inr (fallback why)"
  using assms by (simp add: validate_def lookup_defs_def)

lemma unknown_sub_pool_falls_back:
  assumes "get_prop result ''cost_pool'' = Some (JStr p)" and "map_of defs p = Some pool"
    and "\<not> list_ex (\<lambda>sp. Some (JStr (name sp)) = get_prop result ''cost_sub_pool'') (sub_pools pool)"
  shows "validate rt defs why result = Inr (fallback why)"
  using assms by (simp add: validate_def lookup_defs_def)

text \<open>
  A call that rejects, a result without text and a text that \<^verbatim>\<open>JSON.parse\<close> refuses
  give every row of the batch the fallback, and the batch returns normally.
\<close>

lemma write_rows_empty_response:
  "write_rows rt defs (JObj []) batch =
     (map (\<lambda>row. RowSet (index row) (document_of row (fallback batch_reason) (Num 0))) batch, None)"
  by (induction batch) (simp_all add: classify_def row_document_fallback)

lemma processBatch_empty_response:
  assumes "ai_response rt (orc batch) = JObj []" and "batch \<noteq> []"
  shows "processBatch rt defs orc batch =
     (BatchCall batch # map (\<lambda>row. RowSet (index row) (document_of row (fallback batch_reason) (Num 0))) batch,
      None)"
  using assms by (simp add: processBatch_def write_rows_empty_response)

lemma row_writes_fallbacks:
  "row_writes (map (\<lambda>row. RowSet (index row) (document_of row (fallback batch_reason) (Num 0))) batch)
   = fallback_writes batch"
  by (induction batch) (simp_all add: fallback_writes_def)

text \<open>The outcome of a batch depends on the oracle only through the reply to that batch.\<close>

lemma processBatch_local:
  "orc' batch = orc batch \<Longrightarrow> processBatch rt defs orc' batch = processBatch rt defs orc batch"
  by (simp add: processBatch_def)

lemma failed_call_falls_back:
  assumes "orc batch = CallRejected \<or> orc batch = NoText
         \<or> (\<exists>t. orc batch = ReplyText t \<and> json_parse rt (strip_fences (trim t)) = None)"
    and "batch \<noteq> []"
  shows "processBatch rt defs orc batch =
     (BatchCall batch # map (\<lambda>row. RowSet (index row) (document_of row (fallback batch_reason) (Num 0))) batch,
      None)"
proof -
  from assms(1) have "ai_response rt (orc batch) = JObj []"
    by (auto simp add: ai_response_def)
  with assms(2) show ?thesis by (simp add: processBatch_def write_rows_empty_response)
qed

section \<open>Confidence\<close>

lemma num_or_zero_not_NaN: "num_or_zero n \<noteq> NaN"
  by (simp add: num_or_zero_def)

text \<open>
  What \<^verbatim>\<open>classify\<close> returns for a row that is not accepted, and for one that is.
\<close>

lemma classify_not_accepted:
  assumes "classify rt defs a row = Inr c" and "\<not> accepted_row rt defs a (index row)"
  shows "c = fallback batch_reason"
proof (cases "get_prop a (''transaction_'' @ show_nat (index row))")
  case None
  with assms(1) show ?thesis by (simp add: classify_def split: if_splits)
next
  case (Some result)
  show ?thesis
  proof (cases "truthy (Some result)")
    case False
    with Some assms(1) show ?thesis by (simp add: classify_def split: if_splits)
  next
    case True
    with Some assms(1) have v: "validate rt defs batch_reason result = Inr c"
      by (simp add: classify_def split: if_splits)
    from assms(2) Some True have
      "\<not> (truthy (get_prop result ''cost_pool'')
          \<and> (case to_string rt (the (get_prop result ''cost_pool'')) of
                None \<Rightarrow> False
              | Some k \<Rightarrow>
                  (case map_of defs k of
                     None \<Rightarrow> False
                   | Some pool \<Rightarrow>
                       list_ex (\<lambda>sp. get_prop result ''cost_sub_pool'' = Some (JStr (name sp)))
                         (sub_pools pool))))"
      by (simp add: accepted_row_def entry_def)
    with v show ?thesis
      by (auto simp add: validate_def lookup_defs_def eq_commute [of "Some (JStr _)"]
          split: if_splits option.splits defs_entry.splits)
  qed
qed

lemma classify_accepted:
  assumes "classify rt defs a row = Inr c" and "accepted_row rt defs a (index row)"
  shows "confidence c = or_else (oracle_confidence a (index row)) (JNum (Num 0))"
proof -
  from assms(2) obtain result where r: "get_prop a (''transaction_'' @ show_nat (index row)) = Some result"
    and t: "truthy (Some result)" and tp: "truthy (get_prop result ''cost_pool'')"
    and k: "(case to_string rt (the (get_prop result ''cost_pool'')) of
                None \<Rightarrow> False
              | Some k \<Rightarrow>
                  (case map_of defs k of
                     None \<Rightarrow> False
                   | Some pool \<Rightarrow>
                       list_ex (\<lambda>sp. get_prop result ''cost_sub_pool'' = Some (JStr (name sp)))
                         (sub_pools pool)))"
    by (auto simp add: accepted_row_def entry_def split: option.splits)
  from assms(1) r t have v: "validate rt defs batch_reason result = Inr c"
    by (simp add: classify_def split: if_splits)
  from k obtain key pool where "to_string rt (the (get_prop result ''cost_pool'')) = Some key"
    and "map_of defs key = Some pool"
    and "list_ex (\<lambda>sp. get_prop result ''cost_sub_pool'' = Some (JStr (name sp))) (sub_pools pool)"
    by (auto split: option.splits)
  with v tp have "confidence c = or_else (get_prop result ''confidence'') (JNum (Num 0))"
    by (auto simp add: validate_def lookup_defs_def eq_commute [of "Some (JStr _)"])
  with r show ?thesis by (simp add: oracle_confidence_def entry_def)
qed

section \<open>The streaming loop\<close>

lemma for_await_statuses:
  "s \<in> set (statuses (fst (for_await rt B defs orc fails rows batch n))) \<Longrightarrow>
   \<exists>k. s = ''processing_batch_'' @ show_nat k"
proof (induction rows arbitrary: batch n)
  case Nil
  then show ?case by (simp split: if_splits)
next
  case (Cons row rest)
  let ?b1 = "batch @ [\<lparr>index = n, data = row\<rparr>]"
  show ?case
  proof (cases "B \<le> length ?b1")
    case False
    with Cons.prems Cons.IH [of ?b1 "n + 1"] show ?thesis by simp
  next
    case True
    obtain evs r where pb: "processBatch rt defs orc ?b1 = (evs, r)"
      by (cases "processBatch rt defs orc ?b1")
    with processBatch_trace(1) [of rt defs orc ?b1] have st: "statuses evs = []" by simp
    show ?thesis
    proof (cases r)
      case (Some e)
      with Cons.prems True pb st show ?thesis by auto
    next
      case None
      obtain evs' r' where fa: "for_await rt B defs orc fails rest [] (n + 1) = (evs', r')"
        by (cases "for_await rt B defs orc fails rest [] (n + 1)")
      with Cons.prems True pb st None have
        "s = ''processing_batch_'' @ show_nat ((n + 1) div B) \<or> s \<in> set (statuses evs')"
        by auto
      with Cons.IH [of "[]" "n + 1"] fa show ?thesis by auto
    qed
  qed
qed

text \<open>
  The loop that ends without an error: the batches it processed and the pending one are
  the rows in stream order, every processed batch is full, the pending one is not, and
  the writer has one document for every row of a processed batch.
\<close>

lemma for_await_done:
  assumes "0 < B" and "length batch < B"
    and "for_await rt B defs orc fails rows batch n = (evs, Inr (batch', n'))"
  shows "concat (batch_calls evs) @ batch' = batch @ source_rows n rows
       \<and> (\<forall>b \<in> set (batch_calls evs). length b = B)
       \<and> length batch' < B
       \<and> n' = n + length rows
       \<and> map fst (row_writes evs) = map index (concat (batch_calls evs))"
  using assms
proof (induction rows arbitrary: batch n evs)
  case Nil
  then show ?case by (auto split: if_splits)
next
  case (Cons row rest)
  let ?b1 = "batch @ [\<lparr>index = n, data = row\<rparr>]"
  show ?case
  proof (cases "B \<le> length ?b1")
    case False
    with Cons.prems have fa: "for_await rt B defs orc fails rest ?b1 (n + 1) = (evs, Inr (batch', n'))"
      and len: "length ?b1 < B" by simp_all
    from Cons.IH [OF Cons.prems(1) len fa] show ?thesis by simp
  next
    case True
    with Cons.prems(2) have full: "length ?b1 = B" by simp
    obtain evs1 r where pb: "processBatch rt defs orc ?b1 = (evs1, r)"
      by (cases "processBatch rt defs orc ?b1")
    obtain evs2 r2 where fa: "for_await rt B defs orc fails rest [] (n + 1) = (evs2, r2)"
      by (cases "for_await rt B defs orc fails rest [] (n + 1)")
    from Cons.prems(3) True pb fa have r: "r = None" and r2: "r2 = Inr (batch', n')"
      and evs: "evs = StatusUpdate (''processing_batch_'' @ show_nat ((n + 1) div B)) # evs1 @ evs2"
      by (auto split: option.splits)
    from Cons.prems(1) have e: "length ([]::src_row list) < B" by simp
    note ih = Cons.IH [OF Cons.prems(1) e fa [unfolded r2]]
    from pb have bc1: "batch_calls evs1 = [?b1]"
      using processBatch_trace(2) [of rt defs orc ?b1] by simp
    from pb r have rw1: "map fst (row_writes evs1) = map index ?b1"
      by (simp add: processBatch_done)
    from ih evs bc1 rw1 full show ?thesis by simp
  qed
qed

section \<open>The whole job\<close>

lemma main_completed:
  assumes "main rt B job = (evs, None)"
  shows "\<exists>defs evs1 batch n evs2.
           for_await rt B defs (generateContent job) (read_fails job) (csv_rows job) [] 0 = (evs1, Inr (batch, n))
         \<and> (if batch = [] then ([], None) else processBatch rt defs (generateContent job) batch) = (evs2, None)
         \<and> evs = JobSet (split_slash (the (gcsFile job)) ! 2) (split_slash (the (gcsFile job)) ! 3)
                    # evs1 @ evs2 @ [WriterClosed, Complete n]
         \<and> definitions job = Some defs
         \<and> \<not> missing (gcsBucket job) \<and> \<not> missing (gcsFile job)
         \<and> \<not> length (split_slash (the (gcsFile job))) < 4
         \<and> split_slash (the (gcsFile job)) ! 0 = ''uploads''
         \<and> \<not> close_fails job"
proof -
  let ?parts = "split_slash (the (gcsFile job))"
  from assms have v: "\<not> missing (gcsBucket job)" "\<not> missing (gcsFile job)"
      "\<not> length ?parts < 4" "?parts ! 0 = ''uploads''"
    by (auto simp add: main_def Let_def split: if_splits)
  with assms obtain defs where d: "definitions job = Some defs"
    by (cases "definitions job") (auto simp add: main_def Let_def)
  obtain evs1 r1 where fa:
    "for_await rt B defs (generateContent job) (read_fails job) (csv_rows job) [] 0 = (evs1, r1)"
    by (cases "for_await rt B defs (generateContent job) (read_fails job) (csv_rows job) [] 0")
  with assms v d obtain batch n where r1: "r1 = Inr (batch, n)"
    by (cases r1) (auto simp add: main_def Let_def)
  obtain evs2 r2 where f:
    "(if batch = [] then ([], None) else processBatch rt defs (generateContent job) batch) = (evs2, r2)"
    by (cases "if batch = [] then ([], None) else processBatch rt defs (generateContent job) batch")
  with assms v d fa r1 have "r2 = None"
    and "evs = JobSet (?parts ! 2) (?parts ! 3) # evs1 @ evs2 @ [WriterClosed, Complete n]"
    and "\<not> close_fails job"
    by (auto simp add: main_def Let_def split: option.splits if_splits)
  with fa r1 f v d show ?thesis by blast
qed

lemma main_failed_statuses:
  assumes "main rt B job = (evs, Some e)" and "s \<in> set (statuses evs)"
  shows "s = ''reading'' \<or> (\<exists>k. s = ''processing_batch_'' @ show_nat k)"
proof (cases "definitions job")
  case None
  with assms show ?thesis
    by (auto simp add: main_def Let_def split: if_splits)
next
  case (Some defs)
  obtain evs1 r1 where fa:
    "for_await rt B defs (generateContent job) (read_fails job) (csv_rows job) [] 0 = (evs1, r1)"
    by (cases "for_await rt B defs (generateContent job) (read_fails job) (csv_rows job) [] 0")
  have loop: "t \<in> set (statuses evs1) \<Longrightarrow> \<exists>k. t = ''processing_batch_'' @ show_nat k" for t
    using for_await_statuses [of t rt B defs "generateContent job" "read_fails job" "csv_rows job" "[]" 0] fa
    by simp
  have pb: "statuses (fst (if batch = [] then ([], None)
                            else processBatch rt defs (generateContent job) batch)) = []"
    for batch by (simp add: processBatch_trace)
  from assms(1) Some fa have "set (statuses evs) \<subseteq> insert ''reading'' (set (statuses evs1))"
  proof (cases r1)
    case (Inl e1)
    with assms(1) Some fa show ?thesis
      by (auto simp add: main_def Let_def split: if_splits)
  next
    case (Inr p)
    obtain batch n where p: "p = (batch, n)" by (cases p)
    obtain evs2 r2 where f:
      "(if batch = [] then ([], None) else processBatch rt defs (generateContent job) batch) = (evs2, r2)"
      by (cases "if batch = [] then ([], None) else processBatch rt defs (generateContent job) batch")
    with pb [of batch] have "statuses evs2 = []" by simp
    with assms(1) Some fa Inr p f show ?thesis
      by (auto simp add: main_def Let_def split: if_splits option.splits)
  qed
  with assms(2) loop show ?thesis by auto
qed

text \<open>Only a \<^verbatim>\<open>main\<close> that returned normally writes the status \<^verbatim>\<open>completed\<close>.\<close>

lemma reaches_completed:
  assumes "''completed'' \<in> set (statuses (fst (run_job rt B job)))"
  shows "main rt B job = (fst (run_job rt B job), None)"
proof (cases "main rt B job")
  case (Pair evs r)
  show ?thesis
  proof (cases r)
    case None
    with Pair show ?thesis by (simp add: run_job_def)
  next
    case (Some e)
    with Pair assms have "''completed'' \<in> set (statuses evs)"
      by (auto simp add: run_job_def split: if_splits)
    with main_failed_statuses [of rt B job evs e] Pair Some show ?thesis by auto
  qed
qed

text \<open>
  The statuses of the loop: one for every full batch, numbered from the batches that
  came before.
\<close>

lemma for_await_status_sequence:
  assumes "0 < B" and "length batch < B" and "n = B * q + length batch"
    and "for_await rt B defs orc fails rows batch n = (evs, Inr (batch', n'))"
  shows "statuses evs = map batch_status [Suc q..<Suc (q + (length batch + length rows) div B)]"
  using assms
proof (induction rows arbitrary: batch n q evs)
  case Nil
  then show ?case by (auto split: if_splits)
next
  case (Cons row rest)
  let ?b1 = "batch @ [\<lparr>index = n, data = row\<rparr>]"
  show ?case
  proof (cases "B \<le> length ?b1")
    case False
    with Cons.prems have fa: "for_await rt B defs orc fails rest ?b1 (n + 1) = (evs, Inr (batch', n'))"
      and len: "length ?b1 < B" and n1: "n + 1 = B * q + length ?b1" by simp_all
    from Cons.IH [OF Cons.prems(1) len n1 fa] show ?thesis by simp
  next
    case True
    with Cons.prems(2) have full: "length ?b1 = B" by simp
    obtain evs1 r where pb: "processBatch rt defs orc ?b1 = (evs1, r)"
      by (cases "processBatch rt defs orc ?b1")
    obtain evs2 r2 where fa: "for_await rt B defs orc fails rest [] (n + 1) = (evs2, r2)"
      by (cases "for_await rt B defs orc fails rest [] (n + 1)")
    from Cons.prems(4) True pb fa have r: "r = None" and r2: "r2 = Inr (batch', n')"
      and evs: "evs = StatusUpdate (''processing_batch_'' @ show_nat ((n + 1) div B)) # evs1 @ evs2"
      by (auto split: option.splits)
    from Cons.prems(1) have e: "length ([]::src_row list) < B" by simp
    from Cons.prems(3) full have n1: "n + 1 = B * Suc q + length ([]::src_row list)" by simp
    then have d: "(n + 1) div B = Suc q" using Cons.prems(1) by simp
    from pb have st1: "statuses evs1 = []" using processBatch_trace(1) [of rt defs orc ?b1] by simp
    from Cons.IH [OF Cons.prems(1) e n1 fa [unfolded r2]]
    have ih: "statuses evs2 = map batch_status [Suc (Suc q)..<Suc (Suc q + length rest div B)]" by simp
    from full have "length batch + length (row # rest) = B + length rest" by simp
    moreover have "(B + length rest) div B = Suc (length rest div B)"
      using Cons.prems(1) by (simp add: div_add_self1)
    ultimately have "(length batch + length (row # rest)) div B = Suc (length rest div B)"
      by presburger
    then have "[Suc q..<Suc (q + (length batch + length (row # rest)) div B)]
        = Suc q # [Suc (Suc q)..<Suc (Suc q + length rest div B)]"
      by (simp add: upt_rec)
    with evs st1 ih d show ?thesis by (simp add: batch_status_def)
  qed
qed

text \<open>
  The statuses of a job that completes on K rows: \<^verbatim>\<open>reading\<close>, one
  \<^verbatim>\<open>processing_batch_N\<close> for each of the K div B full batches, \<^verbatim>\<open>completed\<close>.
\<close>

lemma status_sequence:
  assumes "0 < B" and "''completed'' \<in> set (statuses (fst (run_job rt B job)))"
  shows "statuses (fst (run_job rt B job))
       = ''reading'' # map batch_status [1..<Suc (length (csv_rows job) div B)] @ [''completed'']"
proof -
  let ?evs = "fst (run_job rt B job)"
  from main_completed [OF reaches_completed [OF assms(2)]] obtain defs evs1 batch n evs2 where
    fa: "for_await rt B defs (generateContent job) (read_fails job) (csv_rows job) [] 0 = (evs1, Inr (batch, n))"
    and last: "(if batch = [] then ([], None) else processBatch rt defs (generateContent job) batch) = (evs2, None)"
    and evs: "?evs = JobSet (split_slash (the (gcsFile job)) ! 2) (split_slash (the (gcsFile job)) ! 3)
                    # evs1 @ evs2 @ [WriterClosed, Complete n]"
    by blast
  from assms(1) have e: "length ([]::src_row list) < B" by simp
  have z: "(0::nat) = B * 0 + length ([]::src_row list)" by simp
  from for_await_status_sequence [OF assms(1) e z fa]
  have s1: "statuses evs1 = map batch_status [1..<Suc (length (csv_rows job) div B)]" by simp
  from last have s2: "statuses evs2 = []"
    using processBatch_trace(1) [of rt defs "generateContent job" batch]
    by (auto split: if_splits)
  show ?thesis unfolding evs using s1 s2 by simp
qed

text \<open>
  An oracle that differs on one batch only, and there gives a reply that leaves the empty
  response, leaves the batches, the statuses and the documents of the other batches as
  they were, and gives the rows of that batch the fallback.
\<close>

lemma for_await_isolated:
  assumes "\<forall>c. c \<noteq> b \<longrightarrow> orc' c = orc c"
    and "ai_response rt (orc' b) = JObj []"
    and "for_await rt B defs orc fails rows batch n = (evs, Inr (batch', n'))"
  shows "\<exists>evs'. for_await rt B defs orc' fails rows batch n = (evs', Inr (batch', n'))
          \<and> statuses evs' = statuses evs
          \<and> batch_calls evs' = batch_calls evs
          \<and> row_writes evs' =
               concat (map (\<lambda>c. if c = b then fallback_writes c
                                 else row_writes (fst (processBatch rt defs orc c)))
                           (batch_calls evs))"
  using assms(3)
proof (induction rows arbitrary: batch n evs)
  case Nil
  then show ?case by (auto split: if_splits)
next
  case (Cons row rest)
  let ?b1 = "batch @ [\<lparr>index = n, data = row\<rparr>]"
  let ?w = "\<lambda>c. if c = b then fallback_writes c else row_writes (fst (processBatch rt defs orc c))"
  show ?case
  proof (cases "B \<le> length ?b1")
    case False
    with Cons.prems have fa: "for_await rt B defs orc fails rest ?b1 (n + 1) = (evs, Inr (batch', n'))"
      by simp
    from Cons.IH [OF fa] False show ?thesis by simp
  next
    case True
    obtain evs1 r where pb: "processBatch rt defs orc ?b1 = (evs1, r)"
      by (cases "processBatch rt defs orc ?b1")
    obtain evs2 r2 where fa: "for_await rt B defs orc fails rest [] (n + 1) = (evs2, r2)"
      by (cases "for_await rt B defs orc fails rest [] (n + 1)")
    from Cons.prems True pb fa have r: "r = None" and r2: "r2 = Inr (batch', n')"
      and evs: "evs = StatusUpdate (''processing_batch_'' @ show_nat ((n + 1) div B)) # evs1 @ evs2"
      by (auto split: option.splits)
    from Cons.IH [OF fa [unfolded r2]] obtain evs2' where
      fa': "for_await rt B defs orc' fails rest [] (n + 1) = (evs2', Inr (batch', n'))"
      and st: "statuses evs2' = statuses evs2" and bc: "batch_calls evs2' = batch_calls evs2"
      and rw: "row_writes evs2' = concat (map ?w (batch_calls evs2))" by blast
    from pb have tr: "statuses evs1 = []" "batch_calls evs1 = [?b1]"
      using processBatch_trace [of rt defs orc ?b1] by simp_all
    have "\<exists>evs1'. processBatch rt defs orc' ?b1 = (evs1', None) \<and> row_writes evs1' = ?w ?b1"
    proof (cases "?b1 = b")
      case True
      with assms(2) have "ai_response rt (orc' ?b1) = JObj []" by simp
      moreover have "?b1 \<noteq> []" by simp
      ultimately have "processBatch rt defs orc' ?b1 =
          (BatchCall ?b1 # map (\<lambda>row. RowSet (index row) (document_of row (fallback batch_reason) (Num 0))) ?b1,
           None)"
        by (rule processBatch_empty_response)
      moreover have "row_writes (BatchCall ?b1
          # map (\<lambda>row. RowSet (index row) (document_of row (fallback batch_reason) (Num 0))) ?b1) = ?w ?b1"
        using True row_writes_fallbacks [of ?b1] by simp
      ultimately show ?thesis by blast
    next
      case False
      with assms(1) have "orc' ?b1 = orc ?b1" by simp
      then have "processBatch rt defs orc' ?b1 = processBatch rt defs orc ?b1"
        by (rule processBatch_local)
      with pb r False show ?thesis by simp
    qed
    then obtain evs1' where pb': "processBatch rt defs orc' ?b1 = (evs1', None)"
      and rw1: "row_writes evs1' = ?w ?b1" by blast
    from pb' have tr': "statuses evs1' = []" "batch_calls evs1' = [?b1]"
      using processBatch_trace [of rt defs orc' ?b1] by simp_all
    let ?evs' = "StatusUpdate (''processing_batch_'' @ show_nat ((n + 1) div B)) # evs1' @ evs2'"
    from True pb' fa' have "for_await rt B defs orc' fails (row # rest) batch n = (?evs', Inr (batch', n'))"
      by simp
    moreover have "statuses ?evs' = statuses evs" using evs tr tr' st by simp
    moreover have "batch_calls ?evs' = batch_calls evs" using evs tr tr' bc by simp
    moreover have "row_writes ?evs' = concat (map ?w (batch_calls evs))"
      using evs tr rw rw1 by simp
    ultimately show ?thesis by blast
  qed
qed

lemma oracle_failure_isolated:
  assumes "''completed'' \<in> set (statuses (fst (run_job rt B job)))"
    and "\<forall>c. c \<noteq> b \<longrightarrow> orc' c = generateContent job c"
    and "ai_response rt (orc' b) = JObj []"
  shows "statuses (fst (run_job rt B (job\<lparr>generateContent := orc'\<rparr>))) = statuses (fst (run_job rt B job))
       \<and> batch_calls (fst (run_job rt B (job\<lparr>generateContent := orc'\<rparr>))) = batch_calls (fst (run_job rt B job))
       \<and> row_writes (fst (run_job rt B (job\<lparr>generateContent := orc'\<rparr>))) =
           concat (map (\<lambda>c. if c = b then fallback_writes c
                             else row_writes (fst (processBatch rt (the (definitions job)) (generateContent job) c)))
                       (batch_calls (fst (run_job rt B job))))"
proof -
  let ?job' = "job\<lparr>generateContent := orc'\<rparr>"
  let ?orc = "generateContent job"
  let ?start = "JobSet (split_slash (the (gcsFile job)) ! 2) (split_slash (the (gcsFile job)) ! 3)"
  from main_completed [OF reaches_completed [OF assms(1)]] obtain defs evs1 batch n evs2 where
    fa: "for_await rt B defs ?orc (read_fails job) (csv_rows job) [] 0 = (evs1, Inr (batch, n))"
    and last: "(if batch = [] then ([], None) else processBatch rt defs ?orc batch) = (evs2, None)"
    and evs: "fst (run_job rt B job) = ?start # evs1 @ evs2 @ [WriterClosed, Complete n]"
    and d: "definitions job = Some defs"
    and v: "\<not> missing (gcsBucket job)" "\<not> missing (gcsFile job)"
      "\<not> length (split_slash (the (gcsFile job))) < 4"
      "split_slash (the (gcsFile job)) ! 0 = ''uploads''" "\<not> close_fails job"
    by blast
  let ?w = "\<lambda>c. if c = b then fallback_writes c else row_writes (fst (processBatch rt defs ?orc c))"
  from for_await_isolated [OF assms(2,3) fa] obtain evs1' where
    fa': "for_await rt B defs orc' (read_fails job) (csv_rows job) [] 0 = (evs1', Inr (batch, n))"
    and st: "statuses evs1' = statuses evs1" and bc: "batch_calls evs1' = batch_calls evs1"
    and rw: "row_writes evs1' = concat (map ?w (batch_calls evs1))" by blast
  have "\<exists>evs2'. (if batch = [] then ([], None) else processBatch rt defs orc' batch) = (evs2', None)
        \<and> statuses evs2' = statuses evs2 \<and> batch_calls evs2' = batch_calls evs2
        \<and> row_writes evs2' = concat (map ?w (batch_calls evs2))"
  proof (cases "batch = []")
    case True
    with last show ?thesis by auto
  next
    case ne: False
    with last have pb: "processBatch rt defs ?orc batch = (evs2, None)" by simp
    then have tr: "statuses evs2 = []" "batch_calls evs2 = [batch]"
      using processBatch_trace [of rt defs ?orc batch] by simp_all
    have "\<exists>evs2'. processBatch rt defs orc' batch = (evs2', None) \<and> row_writes evs2' = ?w batch"
    proof (cases "batch = b")
      case True
      with assms(3) have "ai_response rt (orc' batch) = JObj []" by simp
      from this ne have "processBatch rt defs orc' batch =
          (BatchCall batch # map (\<lambda>row. RowSet (index row) (document_of row (fallback batch_reason) (Num 0))) batch,
           None)"
        by (rule processBatch_empty_response)
      moreover have "row_writes (BatchCall batch
          # map (\<lambda>row. RowSet (index row) (document_of row (fallback batch_reason) (Num 0))) batch) = ?w batch"
        using True row_writes_fallbacks [of batch] by simp
      ultimately show ?thesis by blast
    next
      case False
      with assms(2) have "orc' batch = ?orc batch" by simp
      then have "processBatch rt defs orc' batch = processBatch rt defs ?orc batch"
        by (rule processBatch_local)
      with pb False show ?thesis by simp
    qed
    then obtain evs2' where pb': "processBatch rt defs orc' batch = (evs2', None)"
      and rw2: "row_writes evs2' = ?w batch" by blast
    from pb' have "statuses evs2' = []" "batch_calls evs2' = [batch]"
      using processBatch_trace [of rt defs orc' batch] by simp_all
    with ne pb' rw2 tr show ?thesis by simp
  qed
  then obtain evs2' where last': "(if batch = [] then ([], None) else processBatch rt defs orc' batch) = (evs2', None)"
    and st2: "statuses evs2' = statuses evs2" and bc2: "batch_calls evs2' = batch_calls evs2"
    and rw2: "row_writes evs2' = concat (map ?w (batch_calls evs2))" by blast
  from d v fa' last' have "main rt B ?job' = (?start # evs1' @ evs2' @ [WriterClosed, Complete n], None)"
    by (simp add: main_def Let_def split: if_splits)
  then have evs': "fst (run_job rt B ?job') = ?start # evs1' @ evs2' @ [WriterClosed, Complete n]"
    by (simp add: run_job_def)
  from d have defs: "the (definitions job) = defs" by simp
  show ?thesis unfolding evs evs' defs using st st2 bc bc2 rw rw2 by simp
qed

lemma chunk_div:
  fixes B m r :: nat
  shows "r < B \<Longrightarrow> (B * m + r) div B = m"
  by simp

lemma chunk_mod:
  fixes B m r :: nat
  shows "r < B \<Longrightarrow> (B * m + r) mod B = r"
  by simp

lemma chunk_ceil:
  fixes B m r :: nat
  assumes "r < B"
  shows "(B * m + r + B - 1) div B = (if r = 0 then m else Suc m)"
proof (cases "r = 0")
  case True
  from assms have e: "B * m + r + B - 1 = B * m + (B - 1)" using True by simp
  from assms have "B - 1 < B" by simp
  then have "(B * m + (B - 1)) div B = m" by (rule chunk_div)
  with e True show ?thesis by presburger
next
  case False
  then have e: "B * m + r + B - 1 = B * Suc m + (r - 1)" by simp
  from assms have "r - 1 < B" by simp
  then have "(B * Suc m + (r - 1)) div B = Suc m" by (rule chunk_div)
  with e False show ?thesis by presburger
qed

lemma length_concat_uniform:
  "\<forall>b \<in> set bs. length b = B \<Longrightarrow> length (concat bs) = B * length bs"
  by (induction bs) simp_all

section \<open>The cloud function\<close>

lemma classify_all_only_rows:
  "statuses (fst (classify_all rt defs gen wfails rows i)) = []
   \<and> (\<forall>e. Fail e \<notin> set (fst (classify_all rt defs gen wfails rows i)))"
proof (induction rows arbitrary: i)
  case Nil
  show ?case by simp
next
  case (Cons row rest)
  obtain evs r where ca: "classify_all rt defs gen wfails rest (i + 1) = (evs, r)"
    by (cases "classify_all rt defs gen wfails rest (i + 1)")
  with Cons.IH [of "i + 1"] have "statuses evs = []" and "\<forall>e. Fail e \<notin> set evs" by simp_all
  with ca show ?case by (auto simp add: set_row_def split: oracle_reply.splits sum.splits if_splits)
qed

section \<open>The same replies in the cloud function\<close>

text \<open>
  The cloud function reads the suggestion inside its \<^verbatim>\<open>try\<close>: a \<^verbatim>\<open>null\<close> reply and a
  pool named after a property of \<^verbatim>\<open>Object.prototype\<close>, whose validation throws, both
  end in the fallback there.
\<close>

lemma suggest_null_falls_back:
  "json_parse rt (strip_fences (trim t)) = Some JNull \<Longrightarrow> suggest rt defs (Some t) = fallback csv_reason"
  by (simp add: suggest_def)

lemma suggest_inherited_falls_back:
  "validate (runtime_with [suggestion_constructor]) sample_taxonomy csv_reason (snd suggestion_constructor)
     = Inl TypeError
   \<and> suggest (runtime_with [suggestion_constructor]) sample_taxonomy (Some (fst suggestion_constructor))
     = fallback csv_reason"
  by code_simp

section \<open>The claims\<close>

subsection \<open>C1: taxonomy integrity\<close>




subsection \<open>C2: row conservation\<close>

text \<open>
  C2. For every job that reaches \<^verbatim>\<open>completed\<close>, the row documents written are keyed by
  the indices 0 to K-1, each once and in order, where K is the number of rows read from
  the source; their number is K, and the \<^verbatim>\<open>totalRows\<close> field of the job is K.
\<close>

theorem row_conservation:
  assumes "0 < B" and "''completed'' \<in> set (statuses (fst (run_job rt B job)))"
  shows "map fst (row_writes (fst (run_job rt B job))) = [0..<length (csv_rows job)]
       \<and> length (row_writes (fst (run_job rt B job))) = length (csv_rows job)
       \<and> totalRows (fst (run_job rt B job)) = Some (length (csv_rows job))"
proof -
  let ?evs = "fst (run_job rt B job)"
  from main_completed [OF reaches_completed [OF assms(2)]] obtain defs evs1 batch n evs2 where
    fa: "for_await rt B defs (generateContent job) (read_fails job) (csv_rows job) [] 0 = (evs1, Inr (batch, n))"
    and last: "(if batch = [] then ([], None) else processBatch rt defs (generateContent job) batch) = (evs2, None)"
    and evs: "?evs = JobSet (split_slash (the (gcsFile job)) ! 2) (split_slash (the (gcsFile job)) ! 3)
                    # evs1 @ evs2 @ [WriterClosed, Complete n]"
    by blast
  from assms(1) have "length ([]::src_row list) < B" by simp
  from for_await_done [OF assms(1) this fa] have
    c: "concat (batch_calls evs1) @ batch = source_rows 0 (csv_rows job)"
    and n: "n = length (csv_rows job)"
    and w: "map fst (row_writes evs1) = map index (concat (batch_calls evs1))" by simp_all
  from last have w2: "map fst (row_writes evs2) = map index batch"
    by (auto simp add: processBatch_done split: if_splits)
  have "map fst (row_writes ?evs) = map index (concat (batch_calls evs1) @ batch)"
    unfolding evs using w w2 by simp
  also have "\<dots> = [0..<length (csv_rows job)]"
    unfolding c by (simp add: index_source_rows)
  finally have m: "map fst (row_writes ?evs) = [0..<length (csv_rows job)]" .
  then have "length (map fst (row_writes ?evs)) = length [0..<length (csv_rows job)]" by simp
  then have l: "length (row_writes ?evs) = length (csv_rows job)" by simp
  have "totalRows ?evs = Some n"
    unfolding evs
    using totalRows_end [of "JobSet (split_slash (the (gcsFile job)) ! 2)
        (split_slash (the (gcsFile job)) ! 3) # evs1 @ evs2 @ [WriterClosed]" n]
    by simp
  with m l n show ?thesis by simp
qed

text \<open>C2, at a source of five rows read in batches of two.\<close>

theorem row_conservation_witness:
  "(0::nat) < 2
   \<and> ''completed'' \<in> set (statuses (fst (run_job (runtime_with [reply_empty]) 2
        (sample_job sample_taxonomy 5 (\<lambda>b. ReplyText (fst reply_empty))))))
   \<and> map fst (row_writes (fst (run_job (runtime_with [reply_empty]) 2
        (sample_job sample_taxonomy 5 (\<lambda>b. ReplyText (fst reply_empty)))))) = [0, 1, 2, 3, 4]
   \<and> totalRows (fst (run_job (runtime_with [reply_empty]) 2
        (sample_job sample_taxonomy 5 (\<lambda>b. ReplyText (fst reply_empty))))) = Some 5"
proof -
  have h0: "(0::nat) < 2" by simp
  have h1: "''completed'' \<in> set (statuses (fst (run_job (runtime_with [reply_empty]) 2
        (sample_job sample_taxonomy 5 (\<lambda>b. ReplyText (fst reply_empty))))))"
    by code_simp
  have k: "length (csv_rows (sample_job sample_taxonomy 5 (\<lambda>b. ReplyText (fst reply_empty)))) = 5"
    by (simp add: sample_job_def)
  have u: "[0..<5] = [0, 1, 2, 3, 4]" by (simp add: upt_rec)
  from row_conservation [OF h0 h1] h0 h1 show ?thesis
    unfolding k u by blast
qed

subsection \<open>C3: a failed oracle call stays in its batch\<close>

text \<open>
  C3, at a reply that is not a JSON object. A source of 120 rows is read in batches of
  50 and the oracle answers the second batch with the text \<^verbatim>\<open>null\<close>, every other batch
  with \<^verbatim>\<open>{}\<close>. \<^verbatim>\<open>JSON.parse\<close> returns \<^verbatim>\<open>null\<close>, reading the entry of row 50 from it throws
  outside the \<^verbatim>\<open>try\<close>, and the job fails: rows 50 to 119 get no document at all. With a
  rejected call in place of the \<^verbatim>\<open>null\<close> reply the same job completes with 120 documents.
\<close>

theorem null_reply_fails_job:
  "run_job (runtime_with [reply_empty, reply_null]) BATCH_SIZE
     (sample_job sample_taxonomy 1
        (\<lambda>b. ReplyText (fst reply_null)))
   = ([JobSet ''job42'' ''data.csv'', BatchCall [row0], Fail TypeError], Some TypeError)
   \<and> statuses (fst (run_job (runtime_with [reply_empty, reply_null]) BATCH_SIZE
        (sample_job sample_taxonomy 120
           (\<lambda>b. if map index b = [50..<100] then ReplyText (fst reply_null)
                else ReplyText (fst reply_empty)))))
     = [''reading'', ''processing_batch_1'', ''processing_batch_2'', ''failed'']
   \<and> map fst (row_writes (fst (run_job (runtime_with [reply_empty, reply_null]) BATCH_SIZE
        (sample_job sample_taxonomy 120
           (\<lambda>b. if map index b = [50..<100] then ReplyText (fst reply_null)
                else ReplyText (fst reply_empty))))))
     = [0..<50]
   \<and> map fst (row_writes (fst (run_job (runtime_with [reply_empty, reply_null]) BATCH_SIZE
        (sample_job sample_taxonomy 120
           (\<lambda>b. if map index b = [50..<100] then CallRejected
                else ReplyText (fst reply_empty))))))
     = [0..<120]"
  by code_simp

subsection \<open>C4: a rejected pool or sub-pool falls back\<close>

text \<open>
  C4, at a pool named after a property that every object inherits. The oracle names the
  cost pool of row 0 \<^verbatim>\<open>constructor\<close>. The lookup in the taxonomy finds the inherited
  function, which has no \<^verbatim>\<open>sub_pools\<close>, and the validation throws: the row gets no
  document and the job fails instead of continuing.
\<close>

theorem inherited_name_fails_job:
  "run_job (runtime_with [reply_constructor]) BATCH_SIZE
     (sample_job sample_taxonomy 1 (\<lambda>b. ReplyText (fst reply_constructor)))
   = ([JobSet ''job42'' ''data.csv'', BatchCall [row0], Fail TypeError], Some TypeError)"
  by code_simp

subsection \<open>C5: batch partition\<close>

text \<open>
  C5. For a job that reaches \<^verbatim>\<open>completed\<close> on a stream of K rows with batch size B, the
  batches handed to \<^verbatim>\<open>processBatch\<close> are, concatenated in the order of the calls, the
  rows in stream order; there are exactly ceil(K/B) of them; and every batch holds B
  rows except the last, which holds K mod B rows when B does not divide K. No call is
  made for an empty remainder.
\<close>

theorem batch_partition:
  assumes "0 < B" and "''completed'' \<in> set (statuses (fst (run_job rt B job)))"
  shows "concat (batch_calls (fst (run_job rt B job))) = source_rows 0 (csv_rows job)
       \<and> length (batch_calls (fst (run_job rt B job))) = (length (csv_rows job) + B - 1) div B
       \<and> (\<forall>n < length (batch_calls (fst (run_job rt B job))).
            length (batch_calls (fst (run_job rt B job)) ! n) =
              (if Suc n < length (batch_calls (fst (run_job rt B job))) \<or> length (csv_rows job) mod B = 0
               then B else length (csv_rows job) mod B))"
proof -
  let ?evs = "fst (run_job rt B job)"
  let ?K = "length (csv_rows job)"
  from main_completed [OF reaches_completed [OF assms(2)]] obtain defs evs1 batch n evs2 where
    fa: "for_await rt B defs (generateContent job) (read_fails job) (csv_rows job) [] 0 = (evs1, Inr (batch, n))"
    and last: "(if batch = [] then ([], None) else processBatch rt defs (generateContent job) batch) = (evs2, None)"
    and evs: "?evs = JobSet (split_slash (the (gcsFile job)) ! 2) (split_slash (the (gcsFile job)) ! 3)
                    # evs1 @ evs2 @ [WriterClosed, Complete n]"
    by blast
  from assms(1) have "length ([]::src_row list) < B" by simp
  from for_await_done [OF assms(1) this fa] have
    c: "concat (batch_calls evs1) @ batch = source_rows 0 (csv_rows job)"
    and full: "\<forall>b \<in> set (batch_calls evs1). length b = B"
    and r: "length batch < B" by simp_all
  let ?bs1 = "batch_calls evs1"
  let ?m = "length ?bs1"
  from last have bc2: "batch_calls evs2 = (if batch = [] then [] else [batch])"
    using processBatch_trace(2) [of rt defs "generateContent job" batch]
    by (auto split: if_splits)
  have bs: "batch_calls ?evs = ?bs1 @ (if batch = [] then [] else [batch])"
    unfolding evs using bc2 by simp
  have "length (concat ?bs1 @ batch) = length (source_rows 0 (csv_rows job))"
    using c by simp
  then have K: "?K = B * ?m + length batch"
    using length_concat_uniform [OF full] by (simp add: source_rows_def)
  have order: "concat (batch_calls ?evs) = source_rows 0 (csv_rows job)"
    unfolding bs using c by auto
  have count: "length (batch_calls ?evs) = (?K + B - 1) div B"
    unfolding bs K using chunk_ceil [OF r, of ?m] by auto
  have md: "?K mod B = length batch"
    unfolding K using chunk_mod [OF r] by simp
  have sizes: "length (batch_calls ?evs ! k) =
      (if Suc k < length (batch_calls ?evs) \<or> ?K mod B = 0 then B else ?K mod B)"
    if k: "k < length (batch_calls ?evs)" for k
  proof (cases "k < ?m")
    case True
    then have "batch_calls ?evs ! k = ?bs1 ! k" unfolding bs by (simp add: nth_append)
    moreover from True full have "length (?bs1 ! k) = B" by simp
    moreover from True have "batch \<noteq> [] \<Longrightarrow> Suc k < length (batch_calls ?evs)"
      unfolding bs by simp
    ultimately show ?thesis using md by auto
  next
    case False
    with k have ne: "batch \<noteq> []" and km: "k = ?m" unfolding bs by (auto split: if_splits)
    then have "batch_calls ?evs ! k = batch" unfolding bs by simp
    moreover from km ne have "\<not> Suc k < length (batch_calls ?evs)" unfolding bs by simp
    ultimately show ?thesis using md ne by simp
  qed
  from order count sizes show ?thesis by blast
qed

text \<open>C5, at a source of five rows and batch size two: three batches, the last of one row.\<close>

theorem batch_partition_witness:
  "(0::nat) < 2
   \<and> ''completed'' \<in> set (statuses (fst (run_job (runtime_with [reply_empty]) 2
        (sample_job sample_taxonomy 5 (\<lambda>b. ReplyText (fst reply_empty))))))
   \<and> length (batch_calls (fst (run_job (runtime_with [reply_empty]) 2
        (sample_job sample_taxonomy 5 (\<lambda>b. ReplyText (fst reply_empty)))))) = 3
   \<and> length (batch_calls (fst (run_job (runtime_with [reply_empty]) 2
        (sample_job sample_taxonomy 5 (\<lambda>b. ReplyText (fst reply_empty))))) ! 2) = 1"
proof -
  have h0: "(0::nat) < 2" by simp
  have h1: "''completed'' \<in> set (statuses (fst (run_job (runtime_with [reply_empty]) 2
        (sample_job sample_taxonomy 5 (\<lambda>b. ReplyText (fst reply_empty))))))"
    by code_simp
  have k: "length (csv_rows (sample_job sample_taxonomy 5 (\<lambda>b. ReplyText (fst reply_empty)))) = 5"
    by (simp add: sample_job_def)
  have a: "(5 + 2 - 1) div 2 = (3::nat)" "(5::nat) mod 2 = 1" by simp_all
  from batch_partition [OF h0 h1] have
    "length (batch_calls (fst (run_job (runtime_with [reply_empty]) 2
        (sample_job sample_taxonomy 5 (\<lambda>b. ReplyText (fst reply_empty)))))) = 3
     \<and> length (batch_calls (fst (run_job (runtime_with [reply_empty]) 2
        (sample_job sample_taxonomy 5 (\<lambda>b. ReplyText (fst reply_empty))))) ! 2) = 1"
    unfolding k a by simp
  with h0 h1 show ?thesis by blast
qed

subsection \<open>C6: the sequence of job statuses\<close>

text \<open>
  C6, at a source of 120 rows with the batch size of 50. The batches have 50, 50 and 20
  rows, and the statuses written are \<^verbatim>\<open>reading\<close>, \<^verbatim>\<open>processing_batch_1\<close>,
  \<^verbatim>\<open>processing_batch_2\<close>, \<^verbatim>\<open>completed\<close>: the final, partial batch is processed after the
  loop without a status of its own, so \<^verbatim>\<open>processing_batch_3\<close> is never written.
\<close>

theorem final_batch_without_status:
  "statuses (fst (run_job (runtime_with [reply_empty]) BATCH_SIZE
      (sample_job sample_taxonomy 120 (\<lambda>b. ReplyText (fst reply_empty)))))
   = [''reading'', ''processing_batch_1'', ''processing_batch_2'', ''completed'']
   \<and> map length (batch_calls (fst (run_job (runtime_with [reply_empty]) BATCH_SIZE
      (sample_job sample_taxonomy 120 (\<lambda>b. ReplyText (fst reply_empty))))))
   = [50, 50, 20]"
  by code_simp

subsection \<open>C7: invalid source paths\<close>

text \<open>
  C7. When both arguments are given, every file path with fewer than four segments
  separated by slashes, or whose first segment is not \<^verbatim>\<open>uploads\<close>, makes \<^verbatim>\<open>main\<close> fail
  with the invalid-path error before anything is written or read: no batch is processed
  and no row document is written, and the only status the job record can get is
  \<^verbatim>\<open>failed\<close>, which the handler writes when the path has at least four segments.
\<close>

theorem invalid_path_rejected:
  assumes "\<not> missing (gcsBucket job)" and "gcsFile job = Some path" and "path \<noteq> []"
    and "length (split_slash path) < 4 \<or> split_slash path ! 0 \<noteq> ''uploads''"
  shows "main rt B job = ([], Some InvalidSourcePath)
       \<and> fst (run_job rt B job) = (if length (split_slash path) < 4 then [] else [Fail InvalidSourcePath])
       \<and> set (statuses (fst (run_job rt B job))) \<subseteq> {''failed''}
       \<and> batch_calls (fst (run_job rt B job)) = []
       \<and> row_writes (fst (run_job rt B job)) = []"
proof -
  from assms have m: "main rt B job = ([], Some InvalidSourcePath)"
    by (simp add: main_def missing_def)
  with assms(2,3) have
    "fst (run_job rt B job) = (if length (split_slash path) < 4 then [] else [Fail InvalidSourcePath])"
    by (simp add: run_job_def missing_def)
  with m show ?thesis by simp
qed

text \<open>C7, at the path \<^verbatim>\<open>uploads/acme/data.csv\<close> of three segments.\<close>

theorem invalid_path_rejected_witness:
  "\<not> missing (gcsBucket ((sample_job sample_taxonomy 1 (\<lambda>b. CallRejected))\<lparr>gcsFile := Some ''uploads/acme/data.csv''\<rparr>))
   \<and> length (split_slash ''uploads/acme/data.csv'') < 4
   \<and> main (runtime_with []) BATCH_SIZE
        ((sample_job sample_taxonomy 1 (\<lambda>b. CallRejected))\<lparr>gcsFile := Some ''uploads/acme/data.csv''\<rparr>)
      = ([], Some InvalidSourcePath)
   \<and> fst (run_job (runtime_with []) BATCH_SIZE
        ((sample_job sample_taxonomy 1 (\<lambda>b. CallRejected))\<lparr>gcsFile := Some ''uploads/acme/data.csv''\<rparr>))
      = []"
proof -
  let ?job = "(sample_job sample_taxonomy 1 (\<lambda>b. CallRejected))\<lparr>gcsFile := Some ''uploads/acme/data.csv''\<rparr>"
  have h1: "\<not> missing (gcsBucket ?job)" by (simp add: sample_job_def missing_def)
  have h2: "gcsFile ?job = Some ''uploads/acme/data.csv''" by simp
  have h3: "''uploads/acme/data.csv'' \<noteq> []" by simp
  have l: "length (split_slash ''uploads/acme/data.csv'') < 4" by code_simp
  then have h4: "length (split_slash ''uploads/acme/data.csv'') < 4
      \<or> split_slash ''uploads/acme/data.csv'' ! 0 \<noteq> ''uploads''" ..
  from invalid_path_rejected [OF h1 h2 h3 h4, of "runtime_with []" BATCH_SIZE] l h1
  show ?thesis by simp
qed

text \<open>
  C7 names \<^verbatim>\<open>uploads/acme/job42/data.csv\<close> as a path to reject. It has four segments,
  \<^verbatim>\<open>uploads\<close> among them, and is the form \<^verbatim>\<open>uploads/{tenantId}/{jobId}/{filename}\<close> the
  job expects: on an empty source the job runs to \<^verbatim>\<open>completed\<close>.
\<close>

theorem four_segment_path_accepted:
  "gcsFile (sample_job sample_taxonomy 0 (\<lambda>b. CallRejected)) = Some ''uploads/acme/job42/data.csv''
   \<and> split_slash ''uploads/acme/job42/data.csv'' = [''uploads'', ''acme'', ''job42'', ''data.csv'']
   \<and> run_job (runtime_with []) BATCH_SIZE (sample_job sample_taxonomy 0 (\<lambda>b. CallRejected))
      = ([JobSet ''job42'' ''data.csv'', WriterClosed, Complete 0], None)"
  by code_simp

subsection \<open>C8: the range of the confidence\<close>

text \<open>
  C8. The confidence persisted for a row is always a number and never \<^verbatim>\<open>NaN\<close>, and it is
  not confined to the interval from 0 to 1. For a row that falls back it is 0. For an
  accepted row it is 0 when the oracle supplied no confidence or a falsy one; otherwise it
  is the number that \<^verbatim>\<open>Number\<close> makes of the confidence supplied, with \<^verbatim>\<open>NaN\<close> and 0 stored
  as 0. In particular, when the oracle supplies for an accepted row a number other than
  0, exactly that number is stored, negative or above 1 as it may be.
\<close>

theorem confidence_of_stored:
  assumes "(i, doc) \<in> set (row_writes (fst (processBatch rt defs orc batch)))"
  shows "\<exists>n. map_of doc ''confidence'' = Some (JNum n) \<and> n \<noteq> NaN
       \<and> (\<not> accepted_row rt defs (ai_response rt (orc batch)) i \<longrightarrow> n = Num 0)
       \<and> (accepted_row rt defs (ai_response rt (orc batch)) i
            \<and> \<not> truthy (oracle_confidence (ai_response rt (orc batch)) i) \<longrightarrow> n = Num 0)
       \<and> (accepted_row rt defs (ai_response rt (orc batch)) i
            \<and> truthy (oracle_confidence (ai_response rt (orc batch)) i) \<longrightarrow>
              (\<exists>m. to_number rt (the (oracle_confidence (ai_response rt (orc batch)) i)) = Some m
                  \<and> n = num_or_zero m))
       \<and> (\<forall>x. accepted_row rt defs (ai_response rt (orc batch)) i
              \<and> oracle_confidence (ai_response rt (orc batch)) i = Some (JNum x)
              \<and> x \<noteq> NaN \<and> x \<noteq> Num 0 \<longrightarrow> n = x)"
proof -
  let ?a = "ai_response rt (orc batch)"
  from processBatch_stored [OF assms] obtain row c where
    c: "classify rt defs ?a row = Inr c"
    and i: "i = index row" and d: "row_document rt row c = Inr doc" by blast
  from row_document_built [OF d] obtain m where
    m: "to_number rt (confidence c) = Some m" and doc: "doc = document_of row c (num_or_zero m)"
    by blast
  let ?n = "num_or_zero m"
  have stored: "map_of doc ''confidence'' = Some (JNum ?n)"
    by (simp add: doc document_of_def)
  have nan: "?n \<noteq> NaN" by (rule num_or_zero_not_NaN)
  have fb: "?n = Num 0" if "\<not> accepted_row rt defs ?a i"
  proof -
    from that i have "\<not> accepted_row rt defs ?a (index row)" by simp
    with c have "c = fallback batch_reason" by (rule classify_not_accepted)
    with m have "m = Num 0" by (simp add: fallback_def)
    then show ?thesis by (simp add: num_or_zero_def)
  qed
  have acc: "confidence c = or_else (oracle_confidence ?a i) (JNum (Num 0))"
    if "accepted_row rt defs ?a i"
  proof -
    from that i have "accepted_row rt defs ?a (index row)" by simp
    with c show ?thesis unfolding i by (rule classify_accepted)
  qed
  have falsy: "?n = Num 0"
    if "accepted_row rt defs ?a i" and "\<not> truthy (oracle_confidence ?a i)"
  proof -
    from acc [OF that(1)] that(2) have "confidence c = JNum (Num 0)" by (simp add: or_else_def)
    with m have "m = Num 0" by simp
    then show ?thesis by (simp add: num_or_zero_def)
  qed
  have kept: "\<exists>k. to_number rt (the (oracle_confidence ?a i)) = Some k \<and> ?n = num_or_zero k"
    if "accepted_row rt defs ?a i" and "truthy (oracle_confidence ?a i)"
  proof -
    from acc [OF that(1)] that(2) have "confidence c = the (oracle_confidence ?a i)"
      by (simp add: or_else_def)
    with m show ?thesis by auto
  qed
  have exact: "?n = x"
    if "accepted_row rt defs ?a i" and "oracle_confidence ?a i = Some (JNum x)"
      and "x \<noteq> NaN" and "x \<noteq> Num 0" for x
  proof -
    from that(2-4) have "truthy (oracle_confidence ?a i)" by simp
    from kept [OF that(1) this] that(2) have "?n = num_or_zero x" by simp
    with that(3,4) show ?thesis by (simp add: num_or_zero_def)
  qed
  from stored nan fb falsy kept exact show ?thesis by blast
qed

text \<open>
  C8, at a reply that gives the accepted row 0 the confidence -0.25: that number is
  stored.
\<close>

theorem confidence_of_stored_witness:
  "(0, doc_negative) \<in> set (row_writes (fst (processBatch (runtime_with [reply_negative])
          sample_taxonomy (\<lambda>b. ReplyText (fst reply_negative)) [row0])))
   \<and> accepted_row (runtime_with [reply_negative]) sample_taxonomy
        (ai_response (runtime_with [reply_negative]) (ReplyText (fst reply_negative))) 0
   \<and> oracle_confidence (ai_response (runtime_with [reply_negative]) (ReplyText (fst reply_negative))) 0
        = Some (JNum (Num (- 1 / 4)))
   \<and> map_of doc_negative ''confidence'' = Some (JNum (Num (- 1 / 4)))"
proof -
  let ?rt = "runtime_with [reply_negative]"
  let ?a = "ai_response ?rt (ReplyText (fst reply_negative))"
  have h: "(0, doc_negative) \<in> set (row_writes (fst (processBatch ?rt
          sample_taxonomy (\<lambda>b. ReplyText (fst reply_negative)) [row0])))"
    by code_simp
  have acc: "accepted_row ?rt sample_taxonomy ?a 0" by code_simp
  have oc: "oracle_confidence ?a 0 = Some (JNum (Num (- 1 / 4)))" by code_simp
  have nz: "Num (- 1 / 4) \<noteq> NaN" "Num (- 1 / 4) \<noteq> Num 0" by simp_all
  from confidence_of_stored [OF h] obtain n where
    stored: "map_of doc_negative ''confidence'' = Some (JNum n)"
    and exact: "\<forall>x. accepted_row ?rt sample_taxonomy ?a 0 \<and> oracle_confidence ?a 0 = Some (JNum x)
              \<and> x \<noteq> NaN \<and> x \<noteq> Num 0 \<longrightarrow> n = x"
    by blast
  from exact acc oc nz have "n = Num (- 1 / 4)" by blast
  with stored h acc oc show ?thesis by blast
qed

text \<open>
  C8 as the specification words it fails when the oracle supplies a confidence of 1.5
  with a valid pool and sub-pool: 1.5 is stored.
\<close>

theorem confidence_not_clamped:
  "map (\<lambda>(i, d). (map_of d ''confidence'', confidence_in_range d))
     (row_writes (fst (processBatch (runtime_with [reply_overconfident]) sample_taxonomy
                         (\<lambda>b. ReplyText (fst reply_overconfident)) [row0])))
   = [(Some (JNum (Num (3 / 2))), False)]"
  by code_simp

subsection \<open>C9: the shape of a row result\<close>

text \<open>
  C9. Every row document the batch job writes has exactly the six fields
  \<^verbatim>\<open>original_data\<close>, \<^verbatim>\<open>cost_pool\<close>, \<^verbatim>\<open>cost_sub_pool\<close>, \<^verbatim>\<open>confidence\<close>, \<^verbatim>\<open>reasoning\<close> and
  \<^verbatim>\<open>row_index\<close>, the last being the index under which it is stored. It has no
  \<^verbatim>\<open>manually_edited\<close> field.
\<close>

theorem shape_of_stored:
  assumes "(i, doc) \<in> set (row_writes (fst (processBatch rt defs orc batch)))"
  shows "map fst doc = [''original_data'', ''cost_pool'', ''cost_sub_pool'', ''confidence'',
                       ''reasoning'', ''row_index'']
       \<and> map_of doc ''manually_edited'' = None
       \<and> map_of doc ''row_index'' = Some (JNum (Num (of_nat i)))"
proof -
  from processBatch_stored [OF assms] obtain row c where
    i: "i = index row" and d: "row_document rt row c = Inr doc" by blast
  from row_document_built [OF d] obtain m where "doc = document_of row c (num_or_zero m)"
    by blast
  with i show ?thesis by (simp add: document_of_def)
qed

text \<open>C9, at the document of row 0 under an accepted reply.\<close>

theorem shape_of_stored_witness:
  "(0, doc_accepted) \<in> set (row_writes (fst (processBatch (runtime_with [reply_accepted])
          sample_taxonomy (\<lambda>b. ReplyText (fst reply_accepted)) [row0])))
   \<and> map fst doc_accepted = [''original_data'', ''cost_pool'', ''cost_sub_pool'', ''confidence'',
                             ''reasoning'', ''row_index'']
   \<and> map_of doc_accepted ''manually_edited'' = None"
proof -
  have h: "(0, doc_accepted) \<in> set (row_writes (fst (processBatch (runtime_with [reply_accepted])
          sample_taxonomy (\<lambda>b. ReplyText (fst reply_accepted)) [row0])))"
    by code_simp
  from shape_of_stored [OF h] h show ?thesis by blast
qed

text \<open>
  C9 as the specification words it fails on every document: the one written for row 0
  under an accepted reply has no \<^verbatim>\<open>manually_edited\<close> field.
\<close>

theorem no_manually_edited_field:
  "map (\<lambda>(i, d). (map_of d ''manually_edited'', row_result_shape d))
     (row_writes (fst (processBatch (runtime_with [reply_accepted]) sample_taxonomy
                         (\<lambda>b. ReplyText (fst reply_accepted)) [row0])))
   = [(None, False)]"
  by code_simp

subsection \<open>C10: errors of the cloud function are only logged\<close>

text \<open>
  C10. Whatever happens in the cloud function \<^verbatim>\<open>processCSV\<close>, it never writes the status
  \<^verbatim>\<open>failed\<close> and never records an error on the job document; and when an error was
  logged after the job document had been written, the last status written is
  \<^verbatim>\<open>reading\<close> or \<^verbatim>\<open>processing\<close>.
\<close>

theorem processCSV_only_logs:
  "''failed'' \<notin> set (statuses (fst (processCSV rt ev)))
   \<and> (\<forall>e. Fail e \<notin> set (fst (processCSV rt ev)))
   \<and> (snd (processCSV rt ev) \<noteq> None \<and> fst (processCSV rt ev) \<noteq> [] \<longrightarrow>
        last (statuses (fst (processCSV rt ev))) \<in> {''reading'', ''processing''})"
proof (cases "loaded_definitions ev")
  case None
  then show ?thesis by (simp add: processCSV_def)
next
  case (Some defs)
  obtain evs r where ca: "classify_all rt defs (generate ev) (row_set_fails ev) (records ev) 0 = (evs, r)"
    by (cases "classify_all rt defs (generate ev) (row_set_fails ev) (records ev) 0")
  with classify_all_only_rows [of rt defs "generate ev" "row_set_fails ev" "records ev" 0]
  have "statuses evs = []" and "\<forall>e. Fail e \<notin> set evs" by simp_all
  with Some ca show ?thesis
    by (auto simp add: processCSV_def Let_def split: option.splits)
qed

text \<open>
  C10, at an event whose only record meets a rejected oracle call: the error is logged
  and the job stays at \<^verbatim>\<open>processing\<close>.
\<close>

theorem processCSV_only_logs_witness:
  "processCSV (runtime_with []) sample_trigger
     = ([JobSet ''job42'' ''data.csv'', Counted 1], Some OracleCallError)
   \<and> snd (processCSV (runtime_with []) sample_trigger) \<noteq> None
   \<and> fst (processCSV (runtime_with []) sample_trigger) \<noteq> []
   \<and> last (statuses (fst (processCSV (runtime_with []) sample_trigger))) \<in> {''reading'', ''processing''}"
proof -
  have r: "processCSV (runtime_with []) sample_trigger
     = ([JobSet ''job42'' ''data.csv'', Counted 1], Some OracleCallError)"
    by code_simp
  then have h: "snd (processCSV (runtime_with []) sample_trigger) \<noteq> None
      \<and> fst (processCSV (runtime_with []) sample_trigger) \<noteq> []" by simp
  from processCSV_only_logs [of "runtime_with []" sample_trigger] h r show ?thesis by blast
qed

end
